theory Spec2Isabelle
  imports Complex_Main "HOL-Library.Sublist" "HOL-Library.AList"
begin

section \<open>Strings as the source uses them\<close>

text \<open>
  Python strings are sequences of code points. A \<^typ>\<open>char\<close> stands for one code point
  in the range 0..255; the operations below are the ones the source applies to strings.
  Strings with a code point above 255 are not represented; among them are the strings
  with a lone surrogate, the only ones on which \<^verbatim>\<open>quote\<close> raises (UnicodeEncodeError).
\<close>

text \<open>\<^verbatim>\<open>sub in s\<close>: substring test.\<close>

fun contains :: "string \<Rightarrow> string \<Rightarrow> bool" where
  "contains sub [] = (sub = [])"
| "contains sub (c # cs) = (prefix sub (c # cs) \<or> contains sub cs)"

text \<open>\<^verbatim>\<open>s.startswith(p)\<close>.\<close>

definition startswith :: "string \<Rightarrow> string \<Rightarrow> bool" where
  "startswith s p = prefix p s"

text \<open>
  \<^verbatim>\<open>s.replace(old, new)\<close>: every non-overlapping occurrence of \<open>old\<close>, scanning from
  the left, is replaced (not only a leading one).
\<close>

function replace :: "string \<Rightarrow> string \<Rightarrow> string \<Rightarrow> string" where
  "replace old new [] = (if old = [] then new else [])"
| "replace old new (c # cs) =
     (if old = [] then new @ c # replace old new cs
      else if prefix old (c # cs) then new @ replace old new (drop (length old) (c # cs))
      else c # replace old new cs)"
  by pat_completeness auto
termination
  by (relation "measure (\<lambda>(old, new, s). length s)") auto

text \<open>
  \<^verbatim>\<open>s.lower()\<close> on code points below 256: the ASCII capitals and the Latin-1 capitals
  (all of 192..222 but the multiplication sign 215) move up by 32.
\<close>

definition lower_char :: "char \<Rightarrow> char" where
  "lower_char c =
     (let n = (of_char c :: nat)
      in if (65 \<le> n \<and> n \<le> 90) \<or> (192 \<le> n \<and> n \<le> 222 \<and> n \<noteq> 215)
         then char_of (n + 32) else c)"

definition lower :: "string \<Rightarrow> string" where
  "lower s = map lower_char s"

text \<open>\<^verbatim>\<open>str(n)\<close> for an integer: its decimal digits, with a minus sign when negative.\<close>

definition digit_char :: "nat \<Rightarrow> char" where
  "digit_char d = char_of (48 + d)"

fun str_nat :: "nat \<Rightarrow> string" where
  "str_nat n = (if n < 10 then [digit_char n] else str_nat (n div 10) @ [digit_char (n mod 10)])"

declare str_nat.simps [simp del]

definition str_int :: "int \<Rightarrow> string" where
  "str_int i = (if i < 0 then CHR ''-'' # str_nat (nat (- i)) else str_nat (nat i))"

text \<open>
  \<^verbatim>\<open>urllib.parse.quote(s)\<close> with its default \<open>safe='/'\<close>: letters, digits and \<open>_.-~\<close> and
  the slash stay; every other code point is written as the bytes of its UTF-8 encoding,
  each byte as \<open>%XX\<close> in upper-case hexadecimal. A code point in 128..255 has the two
  bytes \<open>192 + n div 64\<close> and \<open>128 + n mod 64\<close>.
\<close>

definition always_safe :: "char \<Rightarrow> bool" where
  "always_safe c =
     (let n = (of_char c :: nat)
      in (65 \<le> n \<and> n \<le> 90) \<or> (97 \<le> n \<and> n \<le> 122) \<or> (48 \<le> n \<and> n \<le> 57)
         \<or> c \<in> set ''_.-~'')"

definition hex_digit :: "nat \<Rightarrow> char" where
  "hex_digit d = (if d < 10 then char_of (48 + d) else char_of (55 + d))"

definition percent :: "nat \<Rightarrow> string" where
  "percent b = [CHR ''%'', hex_digit (b div 16), hex_digit (b mod 16)]"

definition utf8 :: "char \<Rightarrow> nat list" where
  "utf8 c = (let n = (of_char c :: nat) in if n < 128 then [n] else [192 + n div 64, 128 + n mod 64])"

definition quote_char :: "char \<Rightarrow> string" where
  "quote_char c = (if always_safe c \<or> c = CHR ''/'' then [c] else concat (map percent (utf8 c)))"

definition quote :: "string \<Rightarrow> string" where
  "quote s = concat (map quote_char s)"

section \<open>Errors\<close>

text \<open>
  The exceptions that the modelled code can raise. \<open>ValidationError\<close> is the one exception
  of the validation library, whatever the violated constraint.
\<close>

datatype error =
    ZeroDivisionError | OverflowError | AttributeError | TypeError | KeyError | ValidationError


section \<open>CustomAssetLibrary\<close>

text \<open>
  The library is built from its \<open>base_url\<close>; \<open>assets\<close> is the dictionary of dictionaries
  that the constructor fills, one association list per category.
\<close>

record CustomAssetLibrary =
  base_url :: string

definition logos :: "CustomAssetLibrary \<Rightarrow> (string \<times> string) list" where
  "logos lib =
     [(''primary'', base_url lib @ ''/logo-primary.png''),
      (''white'', base_url lib @ ''/logo-white.png''),
      (''icon'', base_url lib @ ''/logo-icon.png'')]"

definition social :: "CustomAssetLibrary \<Rightarrow> (string \<times> string) list" where
  "social lib =
     [(''facebook'', base_url lib @ ''/social/facebook.png''),
      (''twitter'', base_url lib @ ''/social/twitter.png''),
      (''instagram'', base_url lib @ ''/social/instagram.png''),
      (''linkedin'', base_url lib @ ''/social/linkedin.png'')]"

definition banners :: "CustomAssetLibrary \<Rightarrow> (string \<times> string) list" where
  "banners lib =
     [(''hero'', base_url lib @ ''/banners/hero.jpg''),
      (''promo'', base_url lib @ ''/banners/promo.jpg'')]"

text \<open>\<^verbatim>\<open>d.get(k, default)\<close>.\<close>

definition dict_get :: "(string \<times> 'v) list \<Rightarrow> string \<Rightarrow> 'v \<Rightarrow> 'v" where
  "dict_get d k dflt = (case map_of d k of Some v \<Rightarrow> v | None \<Rightarrow> dflt)"

text \<open>
  \<^verbatim>\<open>self.assets["logos"].get(variant, self.assets["logos"]["primary"])\<close>: the default is
  the primary logo, which the constructor always stores.
\<close>

definition lib_get_logo :: "CustomAssetLibrary \<Rightarrow> string \<Rightarrow> string" where
  "lib_get_logo lib variant =
     dict_get (logos lib) variant (dict_get (logos lib) ''primary'' [])"

definition lib_get_social_icon :: "CustomAssetLibrary \<Rightarrow> string \<Rightarrow> string" where
  "lib_get_social_icon lib platform = dict_get (social lib) (lower platform) ''''"

definition lib_get_banner :: "CustomAssetLibrary \<Rightarrow> string \<Rightarrow> string" where
  "lib_get_banner lib type = dict_get (banners lib) type ''''"

section \<open>Providers and the outside world\<close>

text \<open>
  What the code asks of the outside world, and the record of what it asked. A \<open>call\<close>
  is one invocation of a method of the asset manager or of one of its providers. The
  answers of the two network services are functions of the request and of the number of
  calls made before it, so that two equal requests may be answered differently.
  \<^item> \<open>access_key\<close>: the Unsplash key (constructor argument or environment), if any;
  \<^item> \<open>unsplash_search\<close>: the outcome of the \<^verbatim>\<open>try\<close> block of
    \<^verbatim>\<open>search_specific_image\<close>: the \<open>regular\<close> URL of the first result, or \<open>None\<close>
    when the result list is empty or anything in the block raised;
  \<^item> \<open>images_generate\<close>: the URL that \<^verbatim>\<open>client.images.generate\<close> returns for a prompt
    and a size, or \<open>None\<close> when it raised.
\<close>

datatype call =
    GetImage string int int bool
  | GetLogo string
  | GetSocialIcons "string list"
  | GenerateImage string string
  | UnsplashUrl string int int
  | SearchSpecificImage string
  | PlaceholderUrl string int int

record world =
  access_key :: "string option"
  unsplash_search :: "nat \<Rightarrow> string \<Rightarrow> string option"
  images_generate :: "nat \<Rightarrow> string \<Rightarrow> string \<Rightarrow> string option"

definition unsplash_get_image_url :: "string \<Rightarrow> int \<Rightarrow> int \<Rightarrow> string" where
  "unsplash_get_image_url description width height =
     ''https://source.unsplash.com/'' @ str_int width @ ''x'' @ str_int height @ ''/?''
       @ quote description"

text \<open>\<^verbatim>\<open>if not self.access_key: return None\<close>: a missing or empty key, no request made.\<close>

definition search_specific_image :: "world \<Rightarrow> call list \<Rightarrow> string \<Rightarrow> string option \<times> call list" where
  "search_specific_image w tr query =
     (if access_key w = None \<or> access_key w = Some []
      then (None, tr @ [SearchSpecificImage query])
      else (unsplash_search w (length tr) query, tr @ [SearchSpecificImage query]))"

definition dalle_fallback_url :: "string \<Rightarrow> string" where
  "dalle_fallback_url description =
     ''https://placehold.co/800x600/2563eb/white?text='' @ quote (take 30 description)"

definition generate_image :: "world \<Rightarrow> call list \<Rightarrow> string \<Rightarrow> string \<Rightarrow> string \<times> call list" where
  "generate_image w tr description size' =
     (case images_generate w (length tr) description size' of
        Some url \<Rightarrow> (url, tr @ [GenerateImage description size'])
      | None \<Rightarrow> (dalle_fallback_url description, tr @ [GenerateImage description size']))"

definition placeholder_get_image_url :: "string \<Rightarrow> int \<Rightarrow> int \<Rightarrow> string" where
  "placeholder_get_image_url description width height =
     ''https://placehold.co/'' @ str_int width @ ''x'' @ str_int height
       @ ''/e5e7eb/1f2937?text='' @ quote (take 50 description)"

section \<open>AssetManager\<close>

datatype strategy = Unsplash | Dalle | Placeholder | Mixed

record AssetManager =
  strategy :: strategy
  custom :: CustomAssetLibrary

text \<open>
  \<^verbatim>\<open>ratio = width / height\<close> is Python's true division of two integers: it raises
  ZeroDivisionError for a zero divisor, and otherwise gives the double nearest to the
  exact quotient \<open>q\<close> (ties to even), raising OverflowError when that double would not be
  finite, that is when \<open>\<bar>q\<bar> \<ge> 2^1024 - 2^970\<close>. The two comparisons are written on \<open>q\<close>:
  \<^item> \<^verbatim>\<open>ratio > 1.5\<close>: 1.5 is a double with an even mantissa and its successor is
    \<open>1.5 + 2^-52\<close>, so the nearest double exceeds 1.5 exactly when \<open>q > 3/2 + 2^-53\<close>;
  \<^item> \<^verbatim>\<open>ratio < 0.7\<close>: the literal denotes the double \<open>6305039478318694 / 2^53\<close>, with an
    even mantissa and predecessor \<open>2^-53\<close> below, so the nearest double is less exactly when
    \<open>q < 6305039478318694 / 2^53 - 2^-54\<close>.
  For the sizes of images (a positive height and a non-negative width below \<open>2^49\<close>)
  these are the comparisons of \<open>q\<close> with \<open>3/2\<close> and \<open>7/10\<close>, as proved below.
\<close>

definition get_dalle_size :: "int \<Rightarrow> int \<Rightarrow> error + string" where
  "get_dalle_size width height =
     (if height = 0 then Inl ZeroDivisionError
      else let q = (of_int width / of_int height :: rat)
           in if \<bar>q\<bar> \<ge> 2 ^ 1024 - 2 ^ 970 then Inl OverflowError
              else if q > 3 / 2 + 1 / 2 ^ 53 then Inr ''1792x1024''
              else if q < 6305039478318694 / 2 ^ 53 - 1 / 2 ^ 54 then Inr ''1024x1792''
              else Inr ''1024x1024'')"

text \<open>
  \<^verbatim>\<open>url or self.placeholder.get_image_url(...)\<close> in the last branch: an absent and an empty
  URL both fall through to the placeholder. The last branch is reached by every strategy
  that is neither \<open>unsplash\<close> nor \<open>placeholder\<close>.
\<close>

definition get_image ::
  "AssetManager \<Rightarrow> world \<Rightarrow> call list \<Rightarrow> string \<Rightarrow> int \<Rightarrow> int \<Rightarrow> bool \<Rightarrow> error + (string \<times> call list)" where
  "get_image am w tr0 description width height use_ai =
     (let tr = tr0 @ [GetImage description width height use_ai]
      in if use_ai \<and> strategy am \<in> {Dalle, Mixed} then
           (case get_dalle_size width height of
              Inl e \<Rightarrow> Inl e
            | Inr size' \<Rightarrow> Inr (generate_image w tr description size'))
         else if strategy am = Unsplash then
           Inr (unsplash_get_image_url description width height,
                tr @ [UnsplashUrl description width height])
         else if strategy am = Placeholder then
           Inr (placeholder_get_image_url description width height,
                tr @ [PlaceholderUrl description width height])
         else
           (case search_specific_image w tr description of
              (Some url, tr') \<Rightarrow>
                if url \<noteq> [] then Inr (url, tr')
                else Inr (placeholder_get_image_url description width height,
                          tr' @ [PlaceholderUrl description width height])
            | (None, tr') \<Rightarrow>
                Inr (placeholder_get_image_url description width height,
                     tr' @ [PlaceholderUrl description width height])))"

definition get_logo :: "AssetManager \<Rightarrow> call list \<Rightarrow> string \<Rightarrow> string \<times> call list" where
  "get_logo am tr variant = (lib_get_logo (custom am) variant, tr @ [GetLogo variant])"

text \<open>The dictionary comprehension: one entry per platform, a repeated platform stored once.\<close>

definition get_social_icons ::
  "AssetManager \<Rightarrow> call list \<Rightarrow> string list \<Rightarrow> (string \<times> string) list \<times> call list" where
  "get_social_icons am tr platforms =
     (foldl (\<lambda>d platform. AList.update platform (lib_get_social_icon (custom am) platform) d)
        [] platforms,
      tr @ [GetSocialIcons platforms])"

section \<open>Untyped input and validated objects\<close>

text \<open>
  \<open>json\<close> is a parsed JSON value (a Python object made of \<open>None\<close>, booleans, integers,
  floats, strings, lists and dictionaries with string keys); a float is the rational it
  denotes. \<open>val\<close> is what validation builds: \<open>VObj c fs\<close> is an instance of the model
  class \<open>c\<close> whose \<^verbatim>\<open>__dict__\<close> holds the fields \<open>fs\<close> in declaration order, \<open>VDict\<close> is a
  dictionary of arbitrary values (\<^verbatim>\<open>dict[str, Any]\<close>).
\<close>

datatype json =
    JNull | JBool bool | JInt int | JFloat rat | JStr string
  | JArr "json list" | JObj "(string \<times> json) list"

datatype val =
    VNone | VBool bool | VInt int | VFloat rat | VStr string
  | VDict "(string \<times> json) list" | VList "val list" | VObj string "(string \<times> val) list"

section \<open>The resolution pass\<close>

text \<open>
  \<^verbatim>\<open>resolve_assets\<close> is a closure over \<open>asset_map\<close> and \<open>asset_manager\<close>; the dictionary
  and the record of calls are threaded through here. \<open>asset_map[description] = url\<close> is
  \<open>AList.update\<close>: an existing key keeps its place and gets the new value, a new key is
  appended.
\<close>

type_synonym pass_state = "(string \<times> string) list \<times> call list"

text \<open>\<^verbatim>\<open>use_ai = "custom" in description or "generate" in description.lower()\<close>\<close>

definition use_ai_of :: "string \<Rightarrow> bool" where
  "use_ai_of description =
     (contains ''custom'' description \<or> contains ''generate'' (lower description))"

text \<open>
  \<^verbatim>\<open>obj.alt or description\<close>: the alternative text unless it is empty or \<open>None\<close>. An
  instance without the attribute raises; validation never builds one.
\<close>

definition alt_or :: "(string \<times> val) list \<Rightarrow> string \<Rightarrow> error + string" where
  "alt_or fs description =
     (case map_of fs ''alt'' of
        None \<Rightarrow> Inl AttributeError
      | Some (VStr a) \<Rightarrow> Inr (if a = [] then description else a)
      | Some VNone \<Rightarrow> Inr description
      | Some _ \<Rightarrow> Inl TypeError)"

text \<open>The three branches on the reference string of one image module.\<close>

definition resolve_description ::
  "AssetManager \<Rightarrow> world \<Rightarrow> call list \<Rightarrow> (string \<times> val) list \<Rightarrow> string
     \<Rightarrow> error + (string \<times> call list)" where
  "resolve_description am w tr fs description =
     (if startswith description ''logo-'' then
        Inr (get_logo am tr (replace ''logo-'' '''' description))
      else if startswith description ''social-'' then
        (let platform = replace ''social-'' '''' description;
             (icons, tr') = get_social_icons am tr [platform]
         in case map_of icons platform of
              Some url \<Rightarrow> Inr (url, tr')
            | None \<Rightarrow> Inl KeyError)
      else
        (case alt_or fs description of
           Inl e \<Rightarrow> Inl e
         | Inr query \<Rightarrow> get_image am w tr query 800 600 (use_ai_of description)))"

text \<open>
  One image module: \<^verbatim>\<open>description = obj.src\<close>, the branch, the store into the
  dictionary, and \<^verbatim>\<open>obj.src = asset_map[description]\<close>.
\<close>

definition resolve_image ::
  "AssetManager \<Rightarrow> world \<Rightarrow> pass_state \<Rightarrow> string \<Rightarrow> (string \<times> val) list
     \<Rightarrow> error + (val \<times> pass_state)" where
  "resolve_image am w st c fs =
     (case map_of fs ''src'' of
        Some (VStr description) \<Rightarrow>
          (case resolve_description am w (snd st) fs description of
             Inl e \<Rightarrow> Inl e
           | Inr (url, tr') \<Rightarrow>
               Inr (VObj c (AList.update ''src'' (VStr url) fs),
                    (AList.update description url (fst st), tr')))
      | _ \<Rightarrow> Inl AttributeError)"

text \<open>
  The walk: an \<open>ImageModule\<close> instance is resolved; a list is walked item by item; any
  other object with a \<^verbatim>\<open>__dict__\<close> is walked value by value; strings, numbers, \<open>None\<close>
  and dictionaries are left alone. An error ends the pass.
\<close>

fun resolve_assets :: "AssetManager \<Rightarrow> world \<Rightarrow> pass_state \<Rightarrow> val \<Rightarrow> error + (val \<times> pass_state)"
  and resolve_items :: "AssetManager \<Rightarrow> world \<Rightarrow> pass_state \<Rightarrow> val list \<Rightarrow> error + (val list \<times> pass_state)"
  and resolve_values ::
    "AssetManager \<Rightarrow> world \<Rightarrow> pass_state \<Rightarrow> (string \<times> val) list
       \<Rightarrow> error + ((string \<times> val) list \<times> pass_state)"
where
  "resolve_assets am w st (VObj c fs) =
     (if c = ''ImageModule'' then resolve_image am w st c fs
      else (case resolve_values am w st fs of
              Inl e \<Rightarrow> Inl e
            | Inr (fs', st') \<Rightarrow> Inr (VObj c fs', st')))"
| "resolve_assets am w st (VList vs) =
     (case resolve_items am w st vs of
        Inl e \<Rightarrow> Inl e
      | Inr (vs', st') \<Rightarrow> Inr (VList vs', st'))"
| "resolve_assets am w st v = Inr (v, st)"
| "resolve_items am w st [] = Inr ([], st)"
| "resolve_items am w st (v # vs) =
     (case resolve_assets am w st v of
        Inl e \<Rightarrow> Inl e
      | Inr (v', st') \<Rightarrow>
          (case resolve_items am w st' vs of
             Inl e \<Rightarrow> Inl e
           | Inr (vs', st'') \<Rightarrow> Inr (v' # vs', st'')))"
| "resolve_values am w st [] = Inr ([], st)"
| "resolve_values am w st ((k, v) # fs) =
     (case resolve_assets am w st v of
        Inl e \<Rightarrow> Inl e
      | Inr (v', st') \<Rightarrow>
          (case resolve_values am w st' fs of
             Inl e \<Rightarrow> Inl e
           | Inr (fs', st'') \<Rightarrow> Inr ((k, v') # fs', st'')))"

section \<open>The document model as field declarations\<close>

text \<open>
  A model class of the source is a list of field declarations; validation, serialization
  and the meaning of a declaration are the validation library's, written once below.
  \<^item> \<open>Req name alias ty\<close>: a field without default (\<^verbatim>\<open>name: T\<close> or \<^verbatim>\<open>Field(...)\<close>);
  \<^item> \<open>Opt name alias ty\<close>: \<^verbatim>\<open>name: Optional[T] = None\<close> or \<^verbatim>\<open>Field(None, ...)\<close>;
  \<^item> the alias is the name itself where the source gives none;
  \<^item> \<open>TInt lo hi\<close> and \<open>TFloat lo hi\<close> carry the bounds \<open>ge\<close> and \<open>le\<close>;
    \<open>TList ty mn mx\<close> carries \<open>min_length\<close> and \<open>max_length\<close>;
  \<^item> \<open>TModel c by_name fields\<close> is the class \<open>c\<close>, \<open>by_name\<close> its \<open>populate_by_name\<close>;
  \<^item> \<open>TUnion\<close> is \<^verbatim>\<open>Union[...]\<close>, \<open>TDictAny\<close> is \<^verbatim>\<open>dict[str, Any]\<close>,
    \<open>TLiteral\<close> is \<^verbatim>\<open>Literal[...]\<close> of strings.
\<close>

datatype ty =
    TStr | TBool
  | TInt "int option" "int option"
  | TFloat "rat option" "rat option"
  | TLiteral "string list"
  | TDictAny
  | TList ty "nat option" "nat option"
  | TModel string bool "field list"
  | TUnion "ty list"
and field =
    Req string string ty
  | Opt string string ty

fun fname :: "field \<Rightarrow> string" where
  "fname (Req n a t) = n"
| "fname (Opt n a t) = n"

fun falias :: "field \<Rightarrow> string" where
  "falias (Req n a t) = a"
| "falias (Opt n a t) = a"

fun fty :: "field \<Rightarrow> ty" where
  "fty (Req n a t) = t"
| "fty (Opt n a t) = t"

text \<open>
  The library converts a scalar of the input to the type of the field (its lax mode: an
  integral float or a numeric string for an integer, and so on). These conversions are
  not part of the repository and are a parameter of the validator.
\<close>

record conversions =
  to_str :: "json \<Rightarrow> string option"
  to_bool :: "json \<Rightarrow> bool option"
  to_int :: "json \<Rightarrow> int option"
  to_float :: "json \<Rightarrow> rat option"

definition ge_ok :: "('a::linorder) option \<Rightarrow> 'a \<Rightarrow> bool" where
  "ge_ok lo x = (case lo of None \<Rightarrow> True | Some l \<Rightarrow> l \<le> x)"

definition le_ok :: "('a::linorder) option \<Rightarrow> 'a \<Rightarrow> bool" where
  "le_ok hi x = (case hi of None \<Rightarrow> True | Some h \<Rightarrow> x \<le> h)"

text \<open>
  The key under which a field is read: its alias, and with \<open>populate_by_name\<close> its name
  when the alias is absent.
\<close>

definition lookup_field :: "bool \<Rightarrow> field \<Rightarrow> (string \<times> json) list \<Rightarrow> json option" where
  "lookup_field by_name f d =
     (case map_of d (falias f) of
        Some j \<Rightarrow> Some j
      | None \<Rightarrow> if by_name then map_of d (fname f) else None)"

text \<open>One validated field in front of the others; the first error wins.\<close>

definition with_field ::
  "string \<Rightarrow> error + val \<Rightarrow> error + (string \<times> val) list \<Rightarrow> error + (string \<times> val) list" where
  "with_field n r rest =
     (case r of
        Inl e \<Rightarrow> Inl e
      | Inr v \<Rightarrow> (case rest of Inl e \<Rightarrow> Inl e | Inr vs \<Rightarrow> Inr ((n, v) # vs)))"

text \<open>
  Validation. A model is read from a dictionary, field by field; keys that no field reads
  are ignored; a missing required field, a value of the wrong type or out of bounds, a
  list of the wrong length fail the whole validation. A union takes its first member that
  validates.
\<close>

function validate :: "conversions \<Rightarrow> ty \<Rightarrow> json \<Rightarrow> error + val"
  and validate_items :: "conversions \<Rightarrow> ty \<Rightarrow> json list \<Rightarrow> error + val list"
  and validate_fields ::
    "conversions \<Rightarrow> bool \<Rightarrow> field list \<Rightarrow> (string \<times> json) list \<Rightarrow> error + (string \<times> val) list"
  and validate_union :: "conversions \<Rightarrow> ty list \<Rightarrow> json \<Rightarrow> error + val"
where
  "validate cv TStr j =
     (case to_str cv j of Some s \<Rightarrow> Inr (VStr s) | None \<Rightarrow> Inl ValidationError)"
| "validate cv TBool j =
     (case to_bool cv j of Some b \<Rightarrow> Inr (VBool b) | None \<Rightarrow> Inl ValidationError)"
| "validate cv (TInt lo hi) j =
     (case to_int cv j of
        Some n \<Rightarrow> if ge_ok lo n \<and> le_ok hi n then Inr (VInt n) else Inl ValidationError
      | None \<Rightarrow> Inl ValidationError)"
| "validate cv (TFloat lo hi) j =
     (case to_float cv j of
        Some x \<Rightarrow> if ge_ok lo x \<and> le_ok hi x then Inr (VFloat x) else Inl ValidationError
      | None \<Rightarrow> Inl ValidationError)"
| "validate cv (TLiteral ls) j =
     (case j of
        JStr s \<Rightarrow> if s \<in> set ls then Inr (VStr s) else Inl ValidationError
      | _ \<Rightarrow> Inl ValidationError)"
| "validate cv TDictAny j =
     (case j of JObj d \<Rightarrow> Inr (VDict d) | _ \<Rightarrow> Inl ValidationError)"
| "validate cv (TList t mn mx) j =
     (case j of
        JArr js \<Rightarrow>
          if ge_ok mn (length js) \<and> le_ok mx (length js) then
            (case validate_items cv t js of
               Inl e \<Rightarrow> Inl e
             | Inr vs \<Rightarrow> Inr (VList vs))
          else Inl ValidationError
      | _ \<Rightarrow> Inl ValidationError)"
| "validate cv (TModel c by_name fs) j =
     (case j of
        JObj d \<Rightarrow>
          (case validate_fields cv by_name fs d of
             Inl e \<Rightarrow> Inl e
           | Inr vs \<Rightarrow> Inr (VObj c vs))
      | _ \<Rightarrow> Inl ValidationError)"
| "validate cv (TUnion ts) j = validate_union cv ts j"
| "validate_items cv t [] = Inr []"
| "validate_items cv t (j # js) =
     (case validate cv t j of
        Inl e \<Rightarrow> Inl e
      | Inr v \<Rightarrow>
          (case validate_items cv t js of
             Inl e \<Rightarrow> Inl e
           | Inr vs \<Rightarrow> Inr (v # vs)))"
| "validate_fields cv by_name [] d = Inr []"
| "validate_fields cv by_name (Req n a t # fs) d =
     (case lookup_field by_name (Req n a t) d of
        None \<Rightarrow> Inl ValidationError
      | Some j \<Rightarrow> with_field n (validate cv t j) (validate_fields cv by_name fs d))"
| "validate_fields cv by_name (Opt n a t # fs) d =
     (case lookup_field by_name (Opt n a t) d of
        None \<Rightarrow> with_field n (Inr VNone) (validate_fields cv by_name fs d)
      | Some j \<Rightarrow>
          with_field n (if j = JNull then Inr VNone else validate cv t j)
            (validate_fields cv by_name fs d))"
| "validate_union cv [] j = Inl ValidationError"
| "validate_union cv (t # ts) j =
     (case validate cv t j of
        Inr v \<Rightarrow> Inr v
      | Inl e \<Rightarrow> validate_union cv ts j)"
  by pat_completeness auto
termination
  by (relation "measures
        [\<lambda>x. case x of
            Inl (Inl (cv, t, j)) \<Rightarrow> size t
          | Inl (Inr (cv, t, js)) \<Rightarrow> size t
          | Inr (Inl (cv, b, fs, d)) \<Rightarrow> size_list size fs
          | Inr (Inr (cv, ts, j)) \<Rightarrow> size_list size ts,
         \<lambda>x. case x of
            Inl (Inl (cv, t, j)) \<Rightarrow> 0
          | Inl (Inr (cv, t, js)) \<Rightarrow> Suc (length js)
          | Inr (Inl (cv, b, fs, d)) \<Rightarrow> 0
          | Inr (Inr (cv, ts, j)) \<Rightarrow> 0]") auto

text \<open>
  Serialization, \<^verbatim>\<open>model_dump(by_alias=True, exclude_none=True)\<close>: the fields of an
  instance in declaration order under their aliases, a field whose value is \<open>None\<close> left
  out; a value under a union is written by the member whose class it is an instance of;
  a \<^verbatim>\<open>dict[str, Any]\<close> is written as it is.
\<close>

fun scalar :: "val \<Rightarrow> json" where
  "scalar (VStr s) = JStr s"
| "scalar (VBool b) = JBool b"
| "scalar (VInt n) = JInt n"
| "scalar (VFloat x) = JFloat x"
| "scalar (VDict d) = JObj d"
| "scalar v = JNull"

fun is_instance :: "ty \<Rightarrow> val \<Rightarrow> bool" where
  "is_instance (TModel c by_name fs) (VObj c' vs) = (c = c')"
| "is_instance t v = False"

function dump :: "ty \<Rightarrow> val \<Rightarrow> json"
  and dump_items :: "ty \<Rightarrow> val list \<Rightarrow> json list"
  and dump_fields :: "field list \<Rightarrow> (string \<times> val) list \<Rightarrow> (string \<times> json) list"
  and dump_union :: "ty list \<Rightarrow> val \<Rightarrow> json"
where
  "dump TStr v = scalar v"
| "dump TBool v = scalar v"
| "dump (TInt lo hi) v = scalar v"
| "dump (TFloat lo hi) v = scalar v"
| "dump (TLiteral ls) v = scalar v"
| "dump TDictAny v = scalar v"
| "dump (TList t mn mx) v = (case v of VList vs \<Rightarrow> JArr (dump_items t vs) | _ \<Rightarrow> JNull)"
| "dump (TModel c by_name fs) v =
     (case v of VObj c' vs \<Rightarrow> JObj (dump_fields fs vs) | _ \<Rightarrow> JNull)"
| "dump (TUnion ts) v = dump_union ts v"
| "dump_items t [] = []"
| "dump_items t (v # vs) = dump t v # dump_items t vs"
| "dump_fields [] vs = []"
| "dump_fields (Req n a t # fs) vs =
     (case vs of
        [] \<Rightarrow> []
      | kv # rest \<Rightarrow>
          if snd kv = VNone then dump_fields fs rest
          else (a, dump t (snd kv)) # dump_fields fs rest)"
| "dump_fields (Opt n a t # fs) vs =
     (case vs of
        [] \<Rightarrow> []
      | kv # rest \<Rightarrow>
          if snd kv = VNone then dump_fields fs rest
          else (a, dump t (snd kv)) # dump_fields fs rest)"
| "dump_union [] v = JNull"
| "dump_union (t # ts) v = (if is_instance t v then dump t v else dump_union ts v)"
  by pat_completeness auto
termination
  by (relation "measures
        [\<lambda>x. case x of
            Inl (Inl (t, v)) \<Rightarrow> size t
          | Inl (Inr (t, vs)) \<Rightarrow> size t
          | Inr (Inl (fs, vs)) \<Rightarrow> size_list size fs
          | Inr (Inr (ts, v)) \<Rightarrow> size_list size ts,
         \<lambda>x. case x of
            Inl (Inl (t, v)) \<Rightarrow> 0
          | Inl (Inr (t, vs)) \<Rightarrow> Suc (length vs)
          | Inr (Inl (fs, vs)) \<Rightarrow> 0
          | Inr (Inr (ts, v)) \<Rightarrow> 0]") auto

text \<open>
  What a declaration says of a value: \<open>conf t v\<close> holds when \<open>v\<close> is a value of the
  declared type \<open>t\<close>, within its bounds, with every field of every instance in place.
\<close>

function conf :: "ty \<Rightarrow> val \<Rightarrow> bool"
  and conf_items :: "ty \<Rightarrow> val list \<Rightarrow> bool"
  and conf_fields :: "field list \<Rightarrow> (string \<times> val) list \<Rightarrow> bool"
  and conf_union :: "ty list \<Rightarrow> val \<Rightarrow> bool"
where
  "conf TStr v = (case v of VStr s \<Rightarrow> True | _ \<Rightarrow> False)"
| "conf TBool v = (case v of VBool b \<Rightarrow> True | _ \<Rightarrow> False)"
| "conf (TInt lo hi) v = (case v of VInt n \<Rightarrow> ge_ok lo n \<and> le_ok hi n | _ \<Rightarrow> False)"
| "conf (TFloat lo hi) v = (case v of VFloat x \<Rightarrow> ge_ok lo x \<and> le_ok hi x | _ \<Rightarrow> False)"
| "conf (TLiteral ls) v = (case v of VStr s \<Rightarrow> s \<in> set ls | _ \<Rightarrow> False)"
| "conf TDictAny v = (case v of VDict d \<Rightarrow> True | _ \<Rightarrow> False)"
| "conf (TList t mn mx) v =
     (case v of
        VList vs \<Rightarrow> ge_ok mn (length vs) \<and> le_ok mx (length vs) \<and> conf_items t vs
      | _ \<Rightarrow> False)"
| "conf (TModel c by_name fs) v =
     (case v of VObj c' vs \<Rightarrow> c' = c \<and> conf_fields fs vs | _ \<Rightarrow> False)"
| "conf (TUnion ts) v = conf_union ts v"
| "conf_items t [] = True"
| "conf_items t (v # vs) = (conf t v \<and> conf_items t vs)"
| "conf_fields [] vs = (vs = [])"
| "conf_fields (Req n a t # fs) vs =
     (case vs of
        [] \<Rightarrow> False
      | kv # rest \<Rightarrow> fst kv = n \<and> conf t (snd kv) \<and> conf_fields fs rest)"
| "conf_fields (Opt n a t # fs) vs =
     (case vs of
        [] \<Rightarrow> False
      | kv # rest \<Rightarrow> fst kv = n \<and> (snd kv = VNone \<or> conf t (snd kv)) \<and> conf_fields fs rest)"
| "conf_union [] v = False"
| "conf_union (t # ts) v = (conf t v \<or> conf_union ts v)"
  by pat_completeness auto
termination
  by (relation "measures
        [\<lambda>x. case x of
            Inl (Inl (t, v)) \<Rightarrow> size t
          | Inl (Inr (t, vs)) \<Rightarrow> size t
          | Inr (Inl (fs, vs)) \<Rightarrow> size_list size fs
          | Inr (Inr (ts, v)) \<Rightarrow> size_list size ts,
         \<lambda>x. case x of
            Inl (Inl (t, v)) \<Rightarrow> 0
          | Inl (Inr (t, vs)) \<Rightarrow> Suc (length vs)
          | Inr (Inl (fs, vs)) \<Rightarrow> 0
          | Inr (Inr (ts, v)) \<Rightarrow> 0]") auto

text \<open>
  The conditions on a set of declarations under which reading back what was written gives
  the same value: within a class the aliases differ, and no field's name is another
  field's alias; the members of a union are classes with different names whose first
  field is the tag \<open>type\<close>, a literal, and no two members share a tag.
\<close>

fun tags :: "ty \<Rightarrow> string list" where
  "tags (TModel c by_name (Req n a (TLiteral ls) # fs)) =
     (if n = ''type'' \<and> a = ''type'' then ls else [])"
| "tags t = []"

fun class_of :: "ty \<Rightarrow> string" where
  "class_of (TModel c by_name fs) = c"
| "class_of t = []"

definition wf_names :: "field list \<Rightarrow> bool" where
  "wf_names fs =
     (distinct (map falias fs)
      \<and> list_all (\<lambda>f. fname f = falias f \<or> fname f \<notin> set (map falias fs)) fs)"

definition wf_members :: "ty list \<Rightarrow> bool" where
  "wf_members ts =
     (list_all (\<lambda>t. tags t \<noteq> []) ts
      \<and> distinct (map class_of ts)
      \<and> distinct (concat (map tags ts)))"

function wf :: "ty \<Rightarrow> bool"
  and wf_fields :: "field list \<Rightarrow> bool"
  and wf_union :: "ty list \<Rightarrow> bool"
where
  "wf TStr = True"
| "wf TBool = True"
| "wf (TInt lo hi) = True"
| "wf (TFloat lo hi) = True"
| "wf (TLiteral ls) = True"
| "wf TDictAny = True"
| "wf (TList t mn mx) = wf t"
| "wf (TModel c by_name fs) = (wf_names fs \<and> wf_fields fs)"
| "wf (TUnion ts) = (wf_members ts \<and> wf_union ts)"
| "wf_fields [] = True"
| "wf_fields (Req n a t # fs) = (wf t \<and> wf_fields fs)"
| "wf_fields (Opt n a t # fs) = (wf t \<and> wf_fields fs)"
| "wf_union [] = True"
| "wf_union (t # ts) = (wf t \<and> wf_union ts)"
  by pat_completeness auto
termination
  by (relation "measure
        (\<lambda>x. case x of
            Inl t \<Rightarrow> size t
          | Inr (Inl fs) \<Rightarrow> size_list size fs
          | Inr (Inr ts) \<Rightarrow> size_list size ts)") auto

text \<open>
  Conversions that are the identity on a value that already has the type of the field;
  the library's are, whatever else they accept.
\<close>

definition exact :: "conversions \<Rightarrow> bool" where
  "exact cv =
     ((\<forall>s. to_str cv (JStr s) = Some s) \<and> (\<forall>b. to_bool cv (JBool b) = Some b)
      \<and> (\<forall>n. to_int cv (JInt n) = Some n) \<and> (\<forall>x. to_float cv (JFloat x) = Some x))"

text \<open>The conversions that accept nothing else: the least that the library accepts.\<close>

definition exact_only :: conversions where
  "exact_only =
     \<lparr>to_str = (\<lambda>j. case j of JStr s \<Rightarrow> Some s | _ \<Rightarrow> None),
      to_bool = (\<lambda>j. case j of JBool b \<Rightarrow> Some b | _ \<Rightarrow> None),
      to_int = (\<lambda>j. case j of JInt n \<Rightarrow> Some n | _ \<Rightarrow> None),
      to_float = (\<lambda>j. case j of JFloat x \<Rightarrow> Some x | _ \<Rightarrow> None)\<rparr>"

text \<open>
  Attribute access and list contents, as \<^verbatim>\<open>print_template_summary\<close> reads a document:
  \<^verbatim>\<open>template.template.rows\<close>, \<^verbatim>\<open>row.columns\<close>, \<^verbatim>\<open>col.modules\<close>.
\<close>

definition attr :: "string \<Rightarrow> val \<Rightarrow> val" where
  "attr n v =
     (case v of
        VObj c fs \<Rightarrow> (case map_of fs n of Some x \<Rightarrow> x | None \<Rightarrow> VNone)
      | _ \<Rightarrow> VNone)"

definition items :: "val \<Rightarrow> val list" where
  "items v = (case v of VList vs \<Rightarrow> vs | _ \<Rightarrow> [])"

definition rows :: "val \<Rightarrow> val list" where
  "rows doc = items (attr ''rows'' (attr ''template'' doc))"

definition columns :: "val \<Rightarrow> val list" where
  "columns row = items (attr ''columns'' row)"

definition modules :: "val \<Rightarrow> val list" where
  "modules col = items (attr ''modules'' col)"

section \<open>The classes of agent.py\<close>

definition ButtonModule_ty :: ty where
  "ButtonModule_ty = TModel ''ButtonModule'' True
     [Req ''type'' ''type'' (TLiteral [''button'']),
      Opt ''label'' ''label'' TStr,
      Opt ''text'' ''text'' TStr,
      Opt ''align'' ''align'' (TLiteral [''left'', ''center'', ''right'']),
      Opt ''href'' ''href'' TStr,
      Opt ''target'' ''target'' (TLiteral [''_blank'', ''_self'', ''_top'']),
      Opt ''size'' ''size'' (TInt (Some 1) None),
      Opt ''color'' ''color'' TStr,
      Opt ''background_color'' ''background-color'' TStr,
      Opt ''padding_top'' ''padding-top'' (TInt (Some 0) (Some 60)),
      Opt ''padding_right'' ''padding-right'' (TInt (Some 0) (Some 60)),
      Opt ''padding_bottom'' ''padding-bottom'' (TInt (Some 0) (Some 60)),
      Opt ''padding_left'' ''padding-left'' (TInt (Some 0) (Some 60)),
      Opt ''content_padding_top'' ''contentPaddingTop'' (TInt (Some 0) (Some 60)),
      Opt ''content_padding_right'' ''contentPaddingRight'' (TInt (Some 0) (Some 60)),
      Opt ''content_padding_bottom'' ''contentPaddingBottom'' (TInt (Some 0) (Some 60)),
      Opt ''content_padding_left'' ''contentPaddingLeft'' (TInt (Some 0) (Some 60)),
      Opt ''hover_background_color'' ''hoverBackgroundColor'' TStr,
      Opt ''hover_color'' ''hoverColor'' TStr,
      Opt ''hover_border_color'' ''hoverBorderColor'' TStr,
      Opt ''hover_border_width'' ''hoverBorderWidth'' (TInt (Some 0) (Some 30)),
      Opt ''border_radius'' ''border-radius'' (TInt (Some 0) (Some 60)),
      Opt ''border_color'' ''border-color'' TStr,
      Opt ''border_width'' ''border-width'' (TInt (Some 0) (Some 30)),
      Opt ''locked'' ''locked'' TBool,
      Opt ''custom_fields'' ''customFields'' TDictAny]"

definition DividerModule_ty :: ty where
  "DividerModule_ty = TModel ''DividerModule'' True
     [Req ''type'' ''type'' (TLiteral [''divider'']),
      Opt ''color'' ''color'' TStr,
      Opt ''height'' ''height'' (TInt (Some 1) (Some 30)),
      Opt ''width'' ''width'' (TInt (Some 1) (Some 100)),
      Opt ''padding_top'' ''padding-top'' (TInt (Some 0) (Some 60)),
      Opt ''padding_right'' ''padding-right'' (TInt (Some 0) (Some 60)),
      Opt ''padding_bottom'' ''padding-bottom'' (TInt (Some 0) (Some 60)),
      Opt ''padding_left'' ''padding-left'' (TInt (Some 0) (Some 60)),
      Opt ''locked'' ''locked'' TBool,
      Opt ''custom_fields'' ''customFields'' TDictAny]"

definition HtmlModule_ty :: ty where
  "HtmlModule_ty = TModel ''HtmlModule'' True
     [Req ''type'' ''type'' (TLiteral [''html'']),
      Opt ''html'' ''html'' TStr,
      Opt ''locked'' ''locked'' TBool,
      Opt ''custom_fields'' ''customFields'' TDictAny]"

definition Icon_ty :: ty where
  "Icon_ty = TModel ''Icon'' True
     [Opt ''alt'' ''alt'' TStr,
      Opt ''text'' ''text'' TStr,
      Opt ''title'' ''title'' TStr,
      Req ''image'' ''image'' TStr,
      Opt ''href'' ''href'' TStr,
      Req ''height'' ''height'' TStr,
      Req ''width'' ''width'' TStr,
      Opt ''target'' ''target'' (TLiteral [''_blank'', ''_self'', ''_top'']),
      Req ''text_position'' ''textPosition'' (TLiteral [''left'', ''right'', ''top'', ''bottom''])]"

definition IconsModule_ty :: ty where
  "IconsModule_ty = TModel ''IconsModule'' True
     [Req ''type'' ''type'' (TLiteral [''icons'']),
      Opt ''icons'' ''icons'' (TList Icon_ty None None),
      Opt ''padding_top'' ''padding-top'' (TInt (Some 0) (Some 60)),
      Opt ''padding_right'' ''padding-right'' (TInt (Some 0) (Some 60)),
      Opt ''padding_bottom'' ''padding-bottom'' (TInt (Some 0) (Some 60)),
      Opt ''padding_left'' ''padding-left'' (TInt (Some 0) (Some 60)),
      Opt ''locked'' ''locked'' TBool,
      Opt ''custom_fields'' ''customFields'' TDictAny]"

definition ImageModule_ty :: ty where
  "ImageModule_ty = TModel ''ImageModule'' True
     [Req ''type'' ''type'' (TLiteral [''image'']),
      Opt ''alt'' ''alt'' TStr,
      Opt ''href'' ''href'' TStr,
      Opt ''src'' ''src'' TStr,
      Opt ''dynamic_src'' ''dynamicSrc'' TStr,
      Opt ''target'' ''target'' (TLiteral [''_blank'', ''_self'', ''_top'']),
      Opt ''padding_top'' ''padding-top'' (TInt (Some 0) (Some 60)),
      Opt ''padding_right'' ''padding-right'' (TInt (Some 0) (Some 60)),
      Opt ''padding_bottom'' ''padding-bottom'' (TInt (Some 0) (Some 60)),
      Opt ''padding_left'' ''padding-left'' (TInt (Some 0) (Some 60)),
      Opt ''locked'' ''locked'' TBool,
      Opt ''custom_fields'' ''customFields'' TDictAny]"

definition ListModule_ty :: ty where
  "ListModule_ty = TModel ''ListModule'' True
     [Req ''type'' ''type'' (TLiteral [''list'']),
      Opt ''underline'' ''underline'' TBool,
      Opt ''italic'' ''italic'' TBool,
      Opt ''bold'' ''bold'' TBool,
      Opt ''html'' ''html'' TStr,
      Opt ''text'' ''text'' TStr,
      Opt ''align'' ''align'' (TLiteral [''left'', ''center'', ''right'']),
      Opt ''tag'' ''tag'' (TLiteral [''ol'', ''ul'']),
      Opt ''size'' ''size'' (TInt (Some 1) None),
      Opt ''color'' ''color'' TStr,
      Opt ''link_color'' ''linkColor'' TStr,
      Opt ''letter_spacing'' ''letter-spacing'' (TInt (Some (-99)) (Some 99)),
      Opt ''line_height'' ''line-height'' (TFloat (Some (1 / 2)) (Some 3)),
      Opt ''direction'' ''direction'' (TLiteral [''ltr'', ''rtl'']),
      Opt ''padding_top'' ''padding-top'' (TInt (Some 0) (Some 60)),
      Opt ''padding_right'' ''padding-right'' (TInt (Some 0) (Some 60)),
      Opt ''padding_bottom'' ''padding-bottom'' (TInt (Some 0) (Some 60)),
      Opt ''padding_left'' ''padding-left'' (TInt (Some 0) (Some 60)),
      Opt ''locked'' ''locked'' TBool,
      Opt ''custom_fields'' ''customFields'' TDictAny]"

definition MenuLink_ty :: ty where
  "MenuLink_ty = TModel ''MenuLink'' False
     [Opt ''title'' ''title'' TStr,
      Opt ''href'' ''href'' TStr,
      Opt ''target'' ''target'' (TLiteral [''_blank'', ''_self'', ''_top''])]"

definition MenuItem_ty :: ty where
  "MenuItem_ty = TModel ''MenuItem'' False
     [Req ''type'' ''type'' (TLiteral [''menu-item'']),
      Opt ''text'' ''text'' TStr,
      Opt ''link'' ''link'' MenuLink_ty]"

definition MenuModule_ty :: ty where
  "MenuModule_ty = TModel ''MenuModule'' True
     [Req ''type'' ''type'' (TLiteral [''menu'']),
      Opt ''items'' ''items'' (TList MenuItem_ty None None),
      Opt ''padding_top'' ''padding-top'' (TInt (Some 0) (Some 60)),
      Opt ''padding_right'' ''padding-right'' (TInt (Some 0) (Some 60)),
      Opt ''padding_bottom'' ''padding-bottom'' (TInt (Some 0) (Some 60)),
      Opt ''padding_left'' ''padding-left'' (TInt (Some 0) (Some 60)),
      Opt ''locked'' ''locked'' TBool,
      Opt ''custom_fields'' ''customFields'' TDictAny]"

definition ParagraphModule_ty :: ty where
  "ParagraphModule_ty = TModel ''ParagraphModule'' True
     [Req ''type'' ''type'' (TLiteral [''paragraph'']),
      Opt ''underline'' ''underline'' TBool,
      Opt ''italic'' ''italic'' TBool,
      Opt ''bold'' ''bold'' TBool,
      Opt ''html'' ''html'' TStr,
      Opt ''text'' ''text'' TStr,
      Opt ''align'' ''align'' (TLiteral [''left'', ''center'', ''right'', ''justify'']),
      Opt ''size'' ''size'' (TInt (Some 1) None),
      Opt ''color'' ''color'' TStr,
      Opt ''link_color'' ''linkColor'' TStr,
      Opt ''letter_spacing'' ''letter-spacing'' (TInt (Some (-99)) (Some 99)),
      Opt ''line_height'' ''line-height'' (TFloat (Some (1 / 2)) (Some 3)),
      Opt ''direction'' ''direction'' (TLiteral [''ltr'', ''rtl'']),
      Opt ''padding_top'' ''padding-top'' (TInt (Some 0) (Some 60)),
      Opt ''padding_right'' ''padding-right'' (TInt (Some 0) (Some 60)),
      Opt ''padding_bottom'' ''padding-bottom'' (TInt (Some 0) (Some 60)),
      Opt ''padding_left'' ''padding-left'' (TInt (Some 0) (Some 60)),
      Opt ''locked'' ''locked'' TBool,
      Opt ''custom_fields'' ''customFields'' TDictAny]"

definition TitleModule_ty :: ty where
  "TitleModule_ty = TModel ''TitleModule'' True
     [Req ''type'' ''type'' (TLiteral [''title'', ''heading'']),
      Opt ''underline'' ''underline'' TBool,
      Opt ''italic'' ''italic'' TBool,
      Opt ''bold'' ''bold'' TBool,
      Opt ''html'' ''html'' TStr,
      Opt ''text'' ''text'' TStr,
      Opt ''align'' ''align'' (TLiteral [''left'', ''center'', ''right'', ''justify'']),
      Opt ''title'' ''title'' (TLiteral [''h1'', ''h2'', ''h3'']),
      Opt ''size'' ''size'' (TInt (Some 1) None),
      Opt ''color'' ''color'' TStr,
      Opt ''link_color'' ''linkColor'' TStr,
      Opt ''letter_spacing'' ''letter-spacing'' (TInt (Some (-99)) (Some 99)),
      Opt ''line_height'' ''line-height'' (TFloat (Some (1 / 2)) (Some 3)),
      Opt ''direction'' ''direction'' (TLiteral [''ltr'', ''rtl'']),
      Opt ''padding_top'' ''padding-top'' (TInt (Some 0) (Some 60)),
      Opt ''padding_right'' ''padding-right'' (TInt (Some 0) (Some 60)),
      Opt ''padding_bottom'' ''padding-bottom'' (TInt (Some 0) (Some 60)),
      Opt ''padding_left'' ''padding-left'' (TInt (Some 0) (Some 60)),
      Opt ''locked'' ''locked'' TBool,
      Opt ''custom_fields'' ''customFields'' TDictAny]"

definition Module :: ty where
  "Module = TUnion
     [ButtonModule_ty,
      DividerModule_ty,
      HtmlModule_ty,
      IconsModule_ty,
      ImageModule_ty,
      ListModule_ty,
      MenuModule_ty,
      ParagraphModule_ty,
      TitleModule_ty]"

definition Column_ty :: ty where
  "Column_ty = TModel ''Column'' True
     [Req ''weight'' ''weight'' (TInt (Some 1) (Some 12)),
      Req ''modules'' ''modules'' (TList Module None None),
      Opt ''background_color'' ''background-color'' TStr,
      Opt ''padding_top'' ''padding-top'' (TInt (Some 0) (Some 60)),
      Opt ''padding_right'' ''padding-right'' (TInt (Some 0) (Some 60)),
      Opt ''padding_bottom'' ''padding-bottom'' (TInt (Some 0) (Some 60)),
      Opt ''padding_left'' ''padding-left'' (TInt (Some 0) (Some 60)),
      Opt ''border_color'' ''border-color'' TStr,
      Opt ''border_width'' ''border-width'' (TInt (Some 0) (Some 30)),
      Opt ''custom_fields'' ''customFields'' TDictAny]"

definition DisplayCondition_ty :: ty where
  "DisplayCondition_ty = TModel ''DisplayCondition'' False
     [Req ''type'' ''type'' TStr,
      Opt ''label'' ''label'' TStr,
      Opt ''description'' ''description'' TStr,
      Opt ''before'' ''before'' TStr,
      Opt ''after'' ''after'' TStr]"

definition Row_ty :: ty where
  "Row_ty = TModel ''Row'' True
     [Req ''name'' ''name'' TStr,
      Req ''columns'' ''columns'' (TList Column_ty (Some 1) (Some 12)),
      Opt ''locked'' ''locked'' TBool,
      Opt ''col_stack_on_mobile'' ''colStackOnMobile'' TBool,
      Opt ''row_reverse_col_stack_on_mobile'' ''rowReverseColStackOnMobile'' TBool,
      Opt ''content_area_background_color'' ''contentAreaBackgroundColor'' TStr,
      Opt ''background_color'' ''background-color'' TStr,
      Opt ''background_image'' ''background-image'' TStr,
      Opt ''background_position'' ''background-position'' TStr,
      Opt ''background_repeat'' ''background-repeat'' TStr,
      Opt ''border_radius'' ''border-radius'' (TInt (Some 0) (Some 60)),
      Opt ''border_color'' ''border-color'' TStr,
      Opt ''border_width'' ''border-width'' (TInt (Some 0) (Some 30)),
      Opt ''columns_border_radius'' ''columnsBorderRadius'' (TInt (Some 0) (Some 60)),
      Opt ''columns_spacing'' ''columnsSpacing'' (TInt (Some 0) (Some 99)),
      Opt ''vertical_align'' ''vertical-align'' (TLiteral [''top'', ''middle'', ''bottom'']),
      Opt ''display_condition'' ''display-condition'' DisplayCondition_ty,
      Opt ''metadata'' ''metadata'' TDictAny,
      Opt ''padding_top'' ''padding-top'' (TInt (Some 0) (Some 60)),
      Opt ''padding_right'' ''padding-right'' (TInt (Some 0) (Some 60)),
      Opt ''padding_bottom'' ''padding-bottom'' (TInt (Some 0) (Some 60)),
      Opt ''padding_left'' ''padding-left'' (TInt (Some 0) (Some 60)),
      Opt ''custom_fields'' ''customFields'' TDictAny]"

definition Settings_ty :: ty where
  "Settings_ty = TModel ''Settings'' True
     [Opt ''link_color'' ''linkColor'' TStr,
      Opt ''background_color'' ''background-color'' TStr,
      Opt ''content_area_background_color'' ''contentAreaBackgroundColor'' TStr,
      Opt ''width'' ''width'' (TInt (Some 320) (Some 1440))]"

definition Metadata_ty :: ty where
  "Metadata_ty = TModel ''Metadata'' False
     [Opt ''lang'' ''lang'' TStr,
      Opt ''title'' ''title'' TStr,
      Opt ''description'' ''description'' TStr,
      Opt ''subject'' ''subject'' TStr,
      Opt ''preheader'' ''preheader'' TStr]"

definition Template_ty :: ty where
  "Template_ty = TModel ''Template'' False
     [Req ''type'' ''type'' (TLiteral [''email'', ''page'', ''popup'']),
      Req ''rows'' ''rows'' (TList Row_ty (Some 1) None),
      Opt ''settings'' ''settings'' Settings_ty,
      Opt ''metadata'' ''metadata'' Metadata_ty]"

definition EmailTemplate_ty :: ty where
  "EmailTemplate_ty = TModel ''EmailTemplate'' False
     [Req ''template'' ''template'' Template_ty]"


section \<open>The classes of asset_manager.py\<close>

text \<open>
  The second file declares its own, shorter classes; \<open>ImageModule\<close> and \<open>ButtonModule\<close>
  inherit the field \<open>type\<close> of \<open>Module\<close> and narrow it. A column takes
  \<^verbatim>\<open>Union[ImageModule, ButtonModule, Module]\<close>.
\<close>

definition AM_Module_ty :: ty where
  "AM_Module_ty = TModel ''Module'' False
     [Req ''type'' ''type'' TStr]"

definition AM_ImageModule_ty :: ty where
  "AM_ImageModule_ty = TModel ''ImageModule'' False
     [Req ''type'' ''type'' (TLiteral [''image'']),
      Req ''src'' ''src'' TStr,
      Req ''alt'' ''alt'' TStr,
      Opt ''href'' ''href'' TStr,
      Opt ''target'' ''target'' (TLiteral [''_blank'', ''_self'', ''_top''])]"

definition AM_ButtonModule_ty :: ty where
  "AM_ButtonModule_ty = TModel ''ButtonModule'' False
     [Req ''type'' ''type'' (TLiteral [''button'']),
      Req ''text'' ''text'' TStr,
      Req ''href'' ''href'' TStr,
      Opt ''background_color'' ''background-color'' TStr]"

definition AM_Column_ty :: ty where
  "AM_Column_ty = TModel ''Column'' False
     [Req ''weight'' ''weight'' (TInt None None),
      Req ''modules'' ''modules'' (TList (TUnion [AM_ImageModule_ty, AM_ButtonModule_ty, AM_Module_ty]) None None)]"

definition AM_Row_ty :: ty where
  "AM_Row_ty = TModel ''Row'' False
     [Req ''name'' ''name'' TStr,
      Req ''columns'' ''columns'' (TList AM_Column_ty None None)]"

definition AM_Template_ty :: ty where
  "AM_Template_ty = TModel ''Template'' False
     [Req ''type'' ''type'' (TLiteral [''email'', ''page'', ''popup'']),
      Req ''rows'' ''rows'' (TList AM_Row_ty None None)]"

definition AM_EmailTemplate_ty :: ty where
  "AM_EmailTemplate_ty = TModel ''EmailTemplate'' False
     [Req ''template'' ''template'' AM_Template_ty]"


section \<open>Reading a pass: image references, calls, and the frame\<close>

text \<open>The calls that are invocations of the asset manager by the pass.\<close>

fun manager_call :: "call \<Rightarrow> bool" where
  "manager_call (GetImage d w h b) = True"
| "manager_call (GetLogo v) = True"
| "manager_call (GetSocialIcons ps) = True"
| "manager_call c = False"

text \<open>
  The reference strings of the image modules of a value, in the order of the walk, one
  per occurrence.
\<close>

fun image_srcs :: "val \<Rightarrow> string list"
  and image_srcs_items :: "val list \<Rightarrow> string list"
  and image_srcs_values :: "(string \<times> val) list \<Rightarrow> string list"
where
  "image_srcs (VObj c fs) =
     (if c = ''ImageModule'' then
        (case map_of fs ''src'' of Some (VStr d) \<Rightarrow> [d] | _ \<Rightarrow> [])
      else image_srcs_values fs)"
| "image_srcs (VList vs) = image_srcs_items vs"
| "image_srcs v = []"
| "image_srcs_items [] = []"
| "image_srcs_items (v # vs) = image_srcs v @ image_srcs_items vs"
| "image_srcs_values [] = []"
| "image_srcs_values ((k, v) # fs) = image_srcs v @ image_srcs_values fs"

text \<open>
  A value with the reference field of every image module blanked: two values with the
  same image are equal in everything but those fields.
\<close>

fun erase_src :: "val \<Rightarrow> val"
  and erase_src_items :: "val list \<Rightarrow> val list"
  and erase_src_values :: "(string \<times> val) list \<Rightarrow> (string \<times> val) list"
where
  "erase_src (VObj c fs) =
     (if c = ''ImageModule'' then
        VObj c (map (\<lambda>kv. if fst kv = ''src'' then (fst kv, VNone) else kv) fs)
      else VObj c (erase_src_values fs))"
| "erase_src (VList vs) = VList (erase_src_items vs)"
| "erase_src v = v"
| "erase_src_items [] = []"
| "erase_src_items (v # vs) = erase_src v # erase_src_items vs"
| "erase_src_values [] = []"
| "erase_src_values ((k, v) # fs) = (k, erase_src v) # erase_src_values fs"

text \<open>Every image module of the value has a string reference and a string or no text.\<close>

fun images_ok :: "val \<Rightarrow> bool"
  and images_ok_items :: "val list \<Rightarrow> bool"
  and images_ok_values :: "(string \<times> val) list \<Rightarrow> bool"
where
  "images_ok (VObj c fs) =
     (if c = ''ImageModule'' then
        (case map_of fs ''src'' of
           Some (VStr d) \<Rightarrow>
             (case map_of fs ''alt'' of Some (VStr a) \<Rightarrow> True | Some VNone \<Rightarrow> True | _ \<Rightarrow> False)
         | _ \<Rightarrow> False)
      else images_ok_values fs)"
| "images_ok (VList vs) = images_ok_items vs"
| "images_ok v = True"
| "images_ok_items [] = True"
| "images_ok_items (v # vs) = (images_ok v \<and> images_ok_items vs)"
| "images_ok_values [] = True"
| "images_ok_values ((k, v) # fs) = (images_ok v \<and> images_ok_values fs)"

text \<open>
  Declarations under which every image module that validation builds has a string
  reference and a string or absent text: the class \<open>ImageModule\<close>, wherever it occurs,
  declares \<open>src\<close> as a required string and \<open>alt\<close> as a string.
\<close>

fun str_field :: "string \<Rightarrow> field list \<Rightarrow> bool" where
  "str_field n [] = False"
| "str_field n (Req m a t # fs) = (if m = n then t = TStr else str_field n fs)"
| "str_field n (Opt m a t # fs) = (if m = n then False else str_field n fs)"

fun opt_str_field :: "string \<Rightarrow> field list \<Rightarrow> bool" where
  "opt_str_field n [] = False"
| "opt_str_field n (Req m a t # fs) = (if m = n then t = TStr else opt_str_field n fs)"
| "opt_str_field n (Opt m a t # fs) = (if m = n then t = TStr else opt_str_field n fs)"

function img_wf :: "ty \<Rightarrow> bool"
  and img_wf_fields :: "field list \<Rightarrow> bool"
  and img_wf_union :: "ty list \<Rightarrow> bool"
where
  "img_wf TStr = True"
| "img_wf TBool = True"
| "img_wf (TInt lo hi) = True"
| "img_wf (TFloat lo hi) = True"
| "img_wf (TLiteral ls) = True"
| "img_wf TDictAny = True"
| "img_wf (TList t mn mx) = img_wf t"
| "img_wf (TModel c by_name fs) =
     ((c = ''ImageModule'' \<longrightarrow> str_field ''src'' fs \<and> opt_str_field ''alt'' fs)
      \<and> (c \<noteq> ''ImageModule'' \<longrightarrow> img_wf_fields fs))"
| "img_wf (TUnion ts) = img_wf_union ts"
| "img_wf_fields [] = True"
| "img_wf_fields (Req n a t # fs) = (img_wf t \<and> img_wf_fields fs)"
| "img_wf_fields (Opt n a t # fs) = (img_wf t \<and> img_wf_fields fs)"
| "img_wf_union [] = True"
| "img_wf_union (t # ts) = (img_wf t \<and> img_wf_union ts)"
  by pat_completeness auto
termination
  by (relation "measure
        (\<lambda>x. case x of
            Inl t \<Rightarrow> size t
          | Inr (Inl fs) \<Rightarrow> size_list size fs
          | Inr (Inr ts) \<Rightarrow> size_list size ts)") auto

text \<open>
  The dictionary that a pass leaves, read from the references before and the references
  after: for each reference string, the URL of its last occurrence.
\<close>

definition last_wins :: "string list \<Rightarrow> string list \<Rightarrow> string \<Rightarrow> string option" where
  "last_wins ds us = map_of (rev (zip ds us))"

text \<open>Worlds, managers and documents for the concrete runs below.\<close>

definition offline :: world where
  "offline =
     \<lparr>access_key = None, unsplash_search = (\<lambda>n q. None),
      images_generate = (\<lambda>n p s. Some ''https://images.example/generated.png'')\<rparr>"

definition manager :: "strategy \<Rightarrow> AssetManager" where
  "manager s = \<lparr>strategy = s, custom = \<lparr>base_url = ''https://your-cdn.com/assets''\<rparr>\<rparr>"

definition image_module :: "string \<Rightarrow> string \<Rightarrow> val" where
  "image_module s a =
     VObj ''ImageModule''
       [(''type'', VStr ''image''), (''src'', VStr s), (''alt'', VStr a),
        (''href'', VNone), (''target'', VNone)]"

definition one_column_document :: "val list \<Rightarrow> val" where
  "one_column_document ms =
     VObj ''EmailTemplate''
       [(''template'',
         VObj ''Template''
           [(''type'', VStr ''email''),
            (''rows'',
             VList [VObj ''Row''
                      [(''name'', VStr ''main''),
                       (''columns'',
                        VList [VObj ''Column''
                                 [(''weight'', VInt 12), (''modules'', VList ms)]])]])])]"

definition image_json :: "string \<Rightarrow> string \<Rightarrow> json" where
  "image_json s a = JObj [(''type'', JStr ''image''), (''src'', JStr s), (''alt'', JStr a)]"

definition one_column_json :: "json list \<Rightarrow> json" where
  "one_column_json ms =
     JObj [(''template'',
            JObj [(''type'', JStr ''email''),
                  (''rows'',
                   JArr [JObj [(''name'', JStr ''main''),
                               (''columns'',
                                JArr [JObj [(''weight'', JInt 12),
                                            (''modules'', JArr ms)]])]])])]"

text \<open>
  Reading the untyped input the way validation does: the member of a dictionary under a
  key, the list under a key, the tag of a module, and the entries that validation reads
  as modules (those of every column of every row of the template).
\<close>

definition json_attr :: "string \<Rightarrow> json \<Rightarrow> json" where
  "json_attr n j =
     (case j of
        JObj d \<Rightarrow> (case map_of d n of Some x \<Rightarrow> x | None \<Rightarrow> JNull)
      | _ \<Rightarrow> JNull)"

definition json_list :: "string \<Rightarrow> json \<Rightarrow> json list" where
  "json_list n j =
     (case j of
        JObj d \<Rightarrow> (case map_of d n of Some (JArr js) \<Rightarrow> js | _ \<Rightarrow> [])
      | _ \<Rightarrow> [])"

definition type_tag :: "json \<Rightarrow> string option" where
  "type_tag j =
     (case j of
        JObj d \<Rightarrow> (case map_of d ''type'' of Some (JStr s) \<Rightarrow> Some s | _ \<Rightarrow> None)
      | _ \<Rightarrow> None)"

definition module_entries :: "json \<Rightarrow> json list" where
  "module_entries j =
     concat (map (\<lambda>row. concat (map (json_list ''modules'') (json_list ''columns'' row)))
               (json_list ''rows'' (json_attr ''template'' j)))"

text \<open>The tags of the nine module classes of agent.py.\<close>

definition module_tags :: "string list" where
  "module_tags =
     [''button'', ''divider'', ''html'', ''icons'', ''image'', ''list'', ''menu'',
      ''paragraph'', ''title'', ''heading'']"

text \<open>Inputs for the concrete runs: a column, a row of \<open>n\<close> columns, a document of rows.\<close>

definition column_json :: "json list \<Rightarrow> json" where
  "column_json ms = JObj [(''weight'', JInt 1), (''modules'', JArr ms)]"

definition row_json :: "json list \<Rightarrow> json" where
  "row_json cs = JObj [(''name'', JStr ''main''), (''columns'', JArr cs)]"

definition document_json :: "json list \<Rightarrow> json" where
  "document_json rs = JObj [(''template'', JObj [(''type'', JStr ''email''), (''rows'', JArr rs)])]"

text \<open>
  Reading back what was written: \<open>rt cv t\<close> says that every value of the declared type
  \<open>t\<close> is written as something other than \<open>null\<close> and is validated from it again.
\<close>

definition rt :: "conversions \<Rightarrow> ty \<Rightarrow> bool" where
  "rt cv t = (\<forall>v. conf t v \<longrightarrow> validate cv t (dump t v) = Inr v \<and> dump t v \<noteq> JNull)"

text \<open>
  A button given under the internal names of its fields, with a field set to \<open>null\<close>, and
  the same button in wire form.
\<close>

definition button_by_name :: json where
  "button_by_name =
     JObj [(''type'', JStr ''button''), (''label'', JNull), (''text'', JStr ''Get Started''),
           (''padding_top'', JInt 10), (''background_color'', JStr ''#2563eb''),
           (''custom_fields'', JObj [(''campaign'', JNull)])]"

definition button_wire :: json where
  "button_wire =
     JObj [(''type'', JStr ''button''), (''text'', JStr ''Get Started''),
           (''background-color'', JStr ''#2563eb''), (''padding-top'', JInt 10),
           (''customFields'', JObj [(''campaign'', JNull)])]"

section \<open>Validation builds what is declared\<close>

lemma with_field_Inr:
  "with_field n r rest = Inr vs \<longleftrightarrow> (\<exists>v vs'. r = Inr v \<and> rest = Inr vs' \<and> vs = (n, v) # vs')"
  by (auto simp: with_field_def split: sum.splits)

lemma validate_conf:
  "validate cv t j = Inr v \<Longrightarrow> conf t v"
  "validate_items cv t js = Inr vs \<Longrightarrow> conf_items t vs \<and> length vs = length js"
  "validate_fields cv b fs d = Inr fvs \<Longrightarrow> conf_fields fs fvs"
  "validate_union cv ts j = Inr v \<Longrightarrow> conf_union ts v"
proof (induction cv t j and cv t js and cv b fs d and cv ts j
    arbitrary: v and vs and fvs and v
    rule: validate_validate_items_validate_fields_validate_union.induct)
  case (7 cv t mn mx j)
  then show ?case by (auto split: json.splits if_splits sum.splits)
next
  case (8 cv c by_name fs j)
  then show ?case by (auto split: json.splits sum.splits)
next
  case (11 cv t j js)
  then show ?case by (auto split: sum.splits)
next
  case (13 cv by_name n a t fs d)
  then show ?case by (auto simp: with_field_Inr split: option.splits)
next
  case (14 cv by_name n a t fs d)
  then show ?case by (auto simp: with_field_Inr split: option.splits if_splits)
next
  case (16 cv t ts j)
  then show ?case by (auto split: sum.splits)
qed (auto split: option.splits if_splits json.splits)

lemma conf_str_field:
  "conf_fields fs vs \<Longrightarrow> str_field n fs \<Longrightarrow> \<exists>s. map_of vs n = Some (VStr s)"
proof (induction n fs arbitrary: vs rule: str_field.induct)
  case (2 n m a t fs)
  then show ?case by (cases vs; cases "snd (hd vs)") (auto split: if_splits)
next
  case (3 n m a t fs)
  then show ?case by (cases vs) (auto split: if_splits)
qed simp

lemma conf_opt_str_field:
  "conf_fields fs vs \<Longrightarrow> opt_str_field n fs
     \<Longrightarrow> (\<exists>s. map_of vs n = Some (VStr s)) \<or> map_of vs n = Some VNone"
proof (induction n fs arbitrary: vs rule: opt_str_field.induct)
  case (2 n m a t fs)
  then show ?case by (cases vs; cases "snd (hd vs)") (auto split: if_splits)
next
  case (3 n m a t fs)
  then show ?case by (cases vs; cases "snd (hd vs)") (auto split: if_splits)
qed simp

lemma conf_items_images_ok:
  "(\<And>v. conf t v \<Longrightarrow> images_ok v) \<Longrightarrow> conf_items t vs \<Longrightarrow> images_ok_items vs"
  by (induction vs) auto

lemma conf_images_ok:
  "img_wf t \<Longrightarrow> conf t v \<Longrightarrow> images_ok v"
  "img_wf_fields fs \<Longrightarrow> conf_fields fs vs \<Longrightarrow> images_ok_values vs"
  "img_wf_union ts \<Longrightarrow> conf_union ts v \<Longrightarrow> images_ok v"
proof (induction t and fs and ts arbitrary: v and vs and v rule: wf_wf_fields_wf_union.induct)
  case (7 t mn mx)
  then show ?case
    using conf_items_images_ok [of t] by (cases v) auto
next
  case (8 c by_name fs)
  from "8.prems" obtain vs where v: "v = VObj c vs" and f: "conf_fields fs vs"
    by (cases v) auto
  show ?case
  proof (cases "c = ''ImageModule''")
    case True
    with "8.prems" have "str_field ''src'' fs" "opt_str_field ''alt'' fs" by simp_all
    from conf_str_field [OF f this(1)] conf_opt_str_field [OF f this(2)] v True
    show ?thesis by auto
  next
    case False
    with "8.prems" "8.IH" [OF _ f] v show ?thesis by simp
  qed
next
  case (11 n a t fs)
  then show ?case by (cases vs) auto
next
  case (12 n a t fs)
  then show ?case by (cases vs) auto
qed (auto split: val.splits)

lemma AM_img_wf: "img_wf AM_EmailTemplate_ty"
  by (simp add: AM_EmailTemplate_ty_def AM_Template_ty_def AM_Row_ty_def AM_Column_ty_def
      AM_ImageModule_ty_def AM_ButtonModule_ty_def AM_Module_ty_def)

lemma validated_images_ok: "conf AM_EmailTemplate_ty D \<Longrightarrow> images_ok D"
  using conf_images_ok(1) [OF AM_img_wf] .

section \<open>Facts about a pass\<close>

lemma get_dalle_size_default: "get_dalle_size 800 600 = Inr ''1024x1024''"
  by (simp add: get_dalle_size_def)

lemma get_image_default: "\<exists>url tr'. get_image am w tr q 800 600 b = Inr (url, tr')"
  by (auto simp: get_image_def get_dalle_size_default generate_image_def
      search_specific_image_def Let_def split: option.splits prod.splits)

lemma get_image_calls:
  "get_image am w tr q wd ht b = Inr (url, tr')
     \<Longrightarrow> filter manager_call tr' = filter manager_call tr @ [GetImage q wd ht b]"
  by (auto simp: get_image_def generate_image_def search_specific_image_def Let_def
      split: option.splits prod.splits if_splits sum.splits)

lemma get_social_icons_single:
  "get_social_icons am tr [p] = ([(p, lib_get_social_icon (custom am) p)], tr @ [GetSocialIcons [p]])"
  by (simp add: get_social_icons_def)

lemma resolve_description_calls:
  "resolve_description am w tr fs d = Inr (url, tr')
     \<Longrightarrow> length (filter manager_call tr') = Suc (length (filter manager_call tr))"
  by (auto simp: resolve_description_def get_logo_def get_social_icons_single Let_def
      split: if_splits sum.splits dest!: get_image_calls)

lemma resolve_description_total:
  assumes "map_of fs ''alt'' = Some (VStr a) \<or> map_of fs ''alt'' = Some VNone"
  shows "\<exists>url tr'. resolve_description am w tr fs d = Inr (url, tr')"
proof -
  obtain q where q: "alt_or fs d = Inr q"
    using assms by (auto simp: alt_or_def)
  show ?thesis
    using get_image_default [of am w tr q "use_ai_of d"] q
    by (auto simp: resolve_description_def get_logo_def get_social_icons_single Let_def)
qed

lemma resolve_image_Inr:
  "resolve_image am w st c fs = Inr (v', st')
     \<Longrightarrow> \<exists>d url. map_of fs ''src'' = Some (VStr d)
           \<and> v' = VObj c (AList.update ''src'' (VStr url) fs)
           \<and> fst st' = AList.update d url (fst st)
           \<and> length (filter manager_call (snd st')) = Suc (length (filter manager_call (snd st)))"
  by (auto simp: resolve_image_def split: option.splits val.splits sum.splits
      dest!: resolve_description_calls)

lemma resolve_image_total:
  assumes "images_ok (VObj ''ImageModule'' fs)"
  shows "\<exists>v' st'. resolve_image am w st c fs = Inr (v', st')"
proof -
  from assms obtain d where d: "map_of fs ''src'' = Some (VStr d)"
    by (auto split: option.splits val.splits)
  from assms d have "(\<exists>a. map_of fs ''alt'' = Some (VStr a)) \<or> map_of fs ''alt'' = Some VNone"
    by (auto split: option.splits val.splits)
  then obtain url tr' where "resolve_description am w (snd st) fs d = Inr (url, tr')"
    using resolve_description_total [of fs _ am w "snd st" d] by blast
  with d show ?thesis by (simp add: resolve_image_def)
qed

lemma resolve_items_Cons_Inr:
  "resolve_items am w st (v # vs) = Inr (r, st'')
     \<Longrightarrow> \<exists>v' st' vs'. resolve_assets am w st v = Inr (v', st')
           \<and> resolve_items am w st' vs = Inr (vs', st'') \<and> r = v' # vs'"
  by (auto split: sum.splits prod.splits)

lemma resolve_values_Cons_Inr:
  "resolve_values am w st ((k, v) # fs) = Inr (r, st'')
     \<Longrightarrow> \<exists>v' st' fs'. resolve_assets am w st v = Inr (v', st')
           \<and> resolve_values am w st' fs = Inr (fs', st'') \<and> r = (k, v') # fs'"
  by (auto split: sum.splits prod.splits)

lemma resolve_assets_VList_Inr:
  "resolve_assets am w st (VList vs) = Inr (r, st')
     \<Longrightarrow> \<exists>vs'. resolve_items am w st vs = Inr (vs', st') \<and> r = VList vs'"
  by (auto split: sum.splits prod.splits)

lemma resolve_assets_VObj_Inr:
  "resolve_assets am w st (VObj c fs) = Inr (r, st') \<Longrightarrow> c \<noteq> ''ImageModule''
     \<Longrightarrow> \<exists>fs'. resolve_values am w st fs = Inr (fs', st') \<and> r = VObj c fs'"
  by (auto split: sum.splits prod.splits)

lemma resolve_calls:
  "resolve_assets am w st v = Inr (v', st')
      \<Longrightarrow> length (filter manager_call (snd st'))
          = length (filter manager_call (snd st)) + length (image_srcs v)"
  "resolve_items am w st vs = Inr (vs', st')
      \<Longrightarrow> length (filter manager_call (snd st'))
          = length (filter manager_call (snd st)) + length (image_srcs_items vs)"
  "resolve_values am w st fs = Inr (fs', st')
      \<Longrightarrow> length (filter manager_call (snd st'))
          = length (filter manager_call (snd st)) + length (image_srcs_values fs)"
proof (induction am w st v and am w st vs and am w st fs
    arbitrary: v' st' and vs' st' and fs' st'
    rule: resolve_assets_resolve_items_resolve_values.induct)
  case (1 am w st c fs)
  show ?case
  proof (cases "c = ''ImageModule''")
    case True
    with "1.prems" have "resolve_image am w st c fs = Inr (v', st')" by simp
    from resolve_image_Inr [OF this] True show ?thesis by auto
  next
    case False
    from resolve_assets_VObj_Inr [OF "1.prems" False] obtain fs' where
      "resolve_values am w st fs = Inr (fs', st')" by blast
    from "1.IH" [OF False this] False show ?thesis by simp
  qed
next
  case (2 am w st vs)
  from resolve_assets_VList_Inr [OF "2.prems"] obtain vs' where
    "resolve_items am w st vs = Inr (vs', st')" by blast
  from "2.IH" [OF this] show ?case by simp
next
  case (5 am w st v vs)
  from resolve_items_Cons_Inr [OF "5.prems"] obtain v' st1 vs1 where
    a: "resolve_assets am w st v = Inr (v', st1)" and
    b: "resolve_items am w st1 vs = Inr (vs1, st')" by blast
  from "5.IH"(1) [OF a] "5.IH"(2) [OF a refl b] show ?case by simp
next
  case (7 am w st k v fs)
  from resolve_values_Cons_Inr [OF "7.prems"] obtain v' st1 fs1 where
    a: "resolve_assets am w st v = Inr (v', st1)" and
    b: "resolve_values am w st1 fs = Inr (fs1, st')" by blast
  from "7.IH"(1) [OF a] "7.IH"(2) [OF a refl b] show ?case by simp
qed simp_all

lemma erase_update_src:
  "map_of fs ''src'' = Some y \<Longrightarrow>
   map (\<lambda>kv. if fst kv = ''src'' then (fst kv, VNone) else kv) (AList.update ''src'' x fs)
   = map (\<lambda>kv. if fst kv = ''src'' then (fst kv, VNone) else kv) fs"
  by (induction fs) (auto split: if_splits)

lemma resolve_frame:
  "resolve_assets am w st v = Inr (v', st') \<Longrightarrow> erase_src v' = erase_src v"
  "resolve_items am w st vs = Inr (vs', st') \<Longrightarrow> erase_src_items vs' = erase_src_items vs"
  "resolve_values am w st fs = Inr (fs', st') \<Longrightarrow> erase_src_values fs' = erase_src_values fs"
proof (induction am w st v and am w st vs and am w st fs
    arbitrary: v' st' and vs' st' and fs' st'
    rule: resolve_assets_resolve_items_resolve_values.induct)
  case (1 am w st c fs)
  show ?case
  proof (cases "c = ''ImageModule''")
    case True
    with "1.prems" have "resolve_image am w st c fs = Inr (v', st')" by simp
    from resolve_image_Inr [OF this] True show ?thesis by (auto simp: erase_update_src)
  next
    case False
    from resolve_assets_VObj_Inr [OF "1.prems" False] obtain fs' where
      "resolve_values am w st fs = Inr (fs', st')" "v' = VObj c fs'" by blast
    with "1.IH" [OF False this(1)] False show ?thesis by simp
  qed
next
  case (2 am w st vs)
  from resolve_assets_VList_Inr [OF "2.prems"] obtain vs' where
    "resolve_items am w st vs = Inr (vs', st')" "v' = VList vs'" by blast
  with "2.IH" [OF this(1)] show ?case by simp
next
  case (5 am w st v vs)
  from resolve_items_Cons_Inr [OF "5.prems"] obtain v' st1 vs1 where
    a: "resolve_assets am w st v = Inr (v', st1)" and
    b: "resolve_items am w st1 vs = Inr (vs1, st')" and c: "vs' = v' # vs1" by blast
  from "5.IH"(1) [OF a] "5.IH"(2) [OF a refl b] c show ?case by simp
next
  case (7 am w st k v fs)
  from resolve_values_Cons_Inr [OF "7.prems"] obtain v' st1 fs1 where
    a: "resolve_assets am w st v = Inr (v', st1)" and
    b: "resolve_values am w st1 fs = Inr (fs1, st')" and c: "fs' = (k, v') # fs1" by blast
  from "7.IH"(1) [OF a] "7.IH"(2) [OF a refl b] c show ?case by simp
qed auto

lemma resolve_total:
  "images_ok v \<Longrightarrow> \<exists>v' st'. resolve_assets am w st v = Inr (v', st')"
  "images_ok_items vs \<Longrightarrow> \<exists>vs' st'. resolve_items am w st vs = Inr (vs', st')"
  "images_ok_values fs \<Longrightarrow> \<exists>fs' st'. resolve_values am w st fs = Inr (fs', st')"
proof (induction am w st v and am w st vs and am w st fs
    rule: resolve_assets_resolve_items_resolve_values.induct)
  case (1 am w st c fs)
  show ?case
  proof (cases "c = ''ImageModule''")
    case True
    with "1.prems" resolve_image_total [of fs am w st c] show ?thesis by simp
  next
    case False
    with "1.prems" have "images_ok_values fs" by simp
    from "1.IH" [OF False this] obtain fs' st' where
      "resolve_values am w st fs = Inr (fs', st')" by blast
    with False show ?thesis by simp
  qed
next
  case (2 am w st vs)
  then obtain vs' st' where "resolve_items am w st vs = Inr (vs', st')" by auto
  then show ?case by simp
next
  case (5 am w st v vs)
  from "5.prems" have ok: "images_ok v" "images_ok_items vs" by simp_all
  from "5.IH"(1) [OF ok(1)] obtain v' st1 where a: "resolve_assets am w st v = Inr (v', st1)"
    by blast
  from "5.IH"(2) [OF a refl ok(2)] obtain vs' st' where
    "resolve_items am w st1 vs = Inr (vs', st')" by blast
  with a show ?case by simp
next
  case (7 am w st k v fs)
  from "7.prems" have ok: "images_ok v" "images_ok_values fs" by simp_all
  from "7.IH"(1) [OF ok(1)] obtain v' st1 where a: "resolve_assets am w st v = Inr (v', st1)"
    by blast
  from "7.IH"(2) [OF a refl ok(2)] obtain fs' st' where
    "resolve_values am w st1 fs = Inr (fs', st')" by blast
  with a show ?case by simp
qed auto

lemma last_wins_append:
  "length ds = length us \<Longrightarrow>
   last_wins (ds @ ds') (us @ us') = last_wins ds us ++ last_wins ds' us'"
  by (simp add: last_wins_def)

lemma last_wins_single: "map_of (AList.update d url m) = map_of m ++ last_wins [d] [url]"
  by (rule ext) (simp add: last_wins_def update_conv' map_add_def)

lemma keys_update: "set (map fst (AList.update d url m)) = insert d (set (map fst m))"
  by (simp add: dom_update)

lemma image_srcs_resolved:
  "map_of fs ''src'' = Some (VStr d) \<Longrightarrow>
   image_srcs (VObj ''ImageModule'' (AList.update ''src'' (VStr url) fs)) = [url]
   \<and> image_srcs (VObj ''ImageModule'' fs) = [d]"
  by (simp add: update_conv')

lemma resolve_map:
  "resolve_assets am w st v = Inr (v', st')
     \<Longrightarrow> length (image_srcs v') = length (image_srcs v)
       \<and> map_of (fst st') = map_of (fst st) ++ last_wins (image_srcs v) (image_srcs v')"
  "resolve_items am w st vs = Inr (vs', st')
     \<Longrightarrow> length (image_srcs_items vs') = length (image_srcs_items vs)
       \<and> map_of (fst st')
         = map_of (fst st) ++ last_wins (image_srcs_items vs) (image_srcs_items vs')"
  "resolve_values am w st fs = Inr (fs', st')
     \<Longrightarrow> length (image_srcs_values fs') = length (image_srcs_values fs)
       \<and> map_of (fst st')
         = map_of (fst st) ++ last_wins (image_srcs_values fs) (image_srcs_values fs')"
proof (induction am w st v and am w st vs and am w st fs
    arbitrary: v' st' and vs' st' and fs' st'
    rule: resolve_assets_resolve_items_resolve_values.induct)
  case (1 am w st c fs)
  show ?case
  proof (cases "c = ''ImageModule''")
    case True
    with "1.prems" have "resolve_image am w st c fs = Inr (v', st')" by simp
    from resolve_image_Inr [OF this] obtain d url where
      "map_of fs ''src'' = Some (VStr d)" "v' = VObj c (AList.update ''src'' (VStr url) fs)"
      "fst st' = AList.update d url (fst st)" by blast
    with True image_srcs_resolved [of fs d url] show ?thesis
      by (simp add: last_wins_single)
  next
    case False
    from resolve_assets_VObj_Inr [OF "1.prems" False] obtain fs' where
      "resolve_values am w st fs = Inr (fs', st')" "v' = VObj c fs'" by blast
    with "1.IH" [OF False this(1)] False show ?thesis by simp
  qed
next
  case (2 am w st vs)
  from resolve_assets_VList_Inr [OF "2.prems"] obtain vs' where
    "resolve_items am w st vs = Inr (vs', st')" "v' = VList vs'" by blast
  with "2.IH" [OF this(1)] show ?case by simp
next
  case (5 am w st v vs)
  from resolve_items_Cons_Inr [OF "5.prems"] obtain v' st1 vs1 where
    a: "resolve_assets am w st v = Inr (v', st1)" and
    b: "resolve_items am w st1 vs = Inr (vs1, st')" and c: "vs' = v' # vs1" by blast
  from "5.IH"(1) [OF a] "5.IH"(2) [OF a refl b] c show ?case
    by (simp add: last_wins_append)
next
  case (7 am w st k v fs)
  from resolve_values_Cons_Inr [OF "7.prems"] obtain v' st1 fs1 where
    a: "resolve_assets am w st v = Inr (v', st1)" and
    b: "resolve_values am w st1 fs = Inr (fs1, st')" and c: "fs' = (k, v') # fs1" by blast
  from "7.IH"(1) [OF a] "7.IH"(2) [OF a refl b] c show ?case
    by (simp add: last_wins_append)
qed (auto simp: last_wins_def)

lemma resolve_keys:
  "resolve_assets am w st v = Inr (v', st')
     \<Longrightarrow> (distinct (map fst (fst st)) \<longrightarrow> distinct (map fst (fst st')))
       \<and> set (map fst (fst st')) = set (map fst (fst st)) \<union> set (image_srcs v)"
  "resolve_items am w st vs = Inr (vs', st')
     \<Longrightarrow> (distinct (map fst (fst st)) \<longrightarrow> distinct (map fst (fst st')))
       \<and> set (map fst (fst st')) = set (map fst (fst st)) \<union> set (image_srcs_items vs)"
  "resolve_values am w st fs = Inr (fs', st')
     \<Longrightarrow> (distinct (map fst (fst st)) \<longrightarrow> distinct (map fst (fst st')))
       \<and> set (map fst (fst st')) = set (map fst (fst st)) \<union> set (image_srcs_values fs)"
proof (induction am w st v and am w st vs and am w st fs
    arbitrary: v' st' and vs' st' and fs' st'
    rule: resolve_assets_resolve_items_resolve_values.induct)
  case (1 am w st c fs)
  show ?case
  proof (cases "c = ''ImageModule''")
    case True
    with "1.prems" have "resolve_image am w st c fs = Inr (v', st')" by simp
    from resolve_image_Inr [OF this] obtain d url where
      "map_of fs ''src'' = Some (VStr d)" "v' = VObj c (AList.update ''src'' (VStr url) fs)"
      "fst st' = AList.update d url (fst st)" by blast
    with True image_srcs_resolved [of fs d url] show ?thesis
      by (simp add: dom_update distinct_update)
  next
    case False
    from resolve_assets_VObj_Inr [OF "1.prems" False] obtain fs' where
      "resolve_values am w st fs = Inr (fs', st')" "v' = VObj c fs'" by blast
    with "1.IH" [OF False this(1)] False show ?thesis by simp
  qed
next
  case (2 am w st vs)
  from resolve_assets_VList_Inr [OF "2.prems"] obtain vs' where
    "resolve_items am w st vs = Inr (vs', st')" "v' = VList vs'" by blast
  with "2.IH" [OF this(1)] show ?case by simp
next
  case (5 am w st v vs)
  from resolve_items_Cons_Inr [OF "5.prems"] obtain v' st1 vs1 where
    a: "resolve_assets am w st v = Inr (v', st1)" and
    b: "resolve_items am w st1 vs = Inr (vs1, st')" and c: "vs' = v' # vs1" by blast
  from "5.IH"(1) [OF a] "5.IH"(2) [OF a refl b] c show ?case
    by auto
next
  case (7 am w st k v fs)
  from resolve_values_Cons_Inr [OF "7.prems"] obtain v' st1 fs1 where
    a: "resolve_assets am w st v = Inr (v', st1)" and
    b: "resolve_values am w st1 fs = Inr (fs1, st')" and c: "fs' = (k, v') # fs1" by blast
  from "7.IH"(1) [OF a] "7.IH"(2) [OF a refl b] c show ?case
    by auto
qed auto

section \<open>Curated library lookups on unknown keys\<close>

text \<open>
  C5, as stated, fails for logos: an unknown variant does not give an empty result, it
  gives the primary logo.
\<close>

theorem C5_unknown_logo_not_empty:
  "lib_get_logo \<lparr>base_url = ''https://your-cdn.com/assets''\<rparr> ''nonexistent''
     = ''https://your-cdn.com/assets/logo-primary.png''
   \<and> map_of (logos \<lparr>base_url = ''https://your-cdn.com/assets''\<rparr>) ''nonexistent'' = None
   \<and> lib_get_logo \<lparr>base_url = ''https://your-cdn.com/assets''\<rparr> ''nonexistent'' \<noteq> ''''"
  by (simp add: lib_get_logo_def dict_get_def logos_def)

text \<open>
  C5, amended: no lookup fails on an unknown key (every lookup is a total function that
  returns a string); for a key that is not stored, the social-icon lookup (by the
  lower-cased platform name) and the banner lookup return the empty string, and the logo
  lookup returns the primary logo.
\<close>

theorem C5_unknown_key_lookups:
  "(map_of (logos lib) variant = None \<longrightarrow>
      lib_get_logo lib variant = base_url lib @ ''/logo-primary.png'')
   \<and> (map_of (social lib) (lower platform) = None \<longrightarrow> lib_get_social_icon lib platform = '''')
   \<and> (map_of (banners lib) type = None \<longrightarrow> lib_get_banner lib type = '''')"
  by (simp add: lib_get_logo_def lib_get_social_icon_def lib_get_banner_def dict_get_def
      logos_def)

theorem C5_unknown_key_lookups_witness:
  "map_of (logos \<lparr>base_url = ''https://cdn''\<rparr>) ''dark'' = None
   \<and> lib_get_logo \<lparr>base_url = ''https://cdn''\<rparr> ''dark'' = ''https://cdn/logo-primary.png''
   \<and> map_of (social \<lparr>base_url = ''https://cdn''\<rparr>) (lower ''TikTok'') = None
   \<and> lib_get_social_icon \<lparr>base_url = ''https://cdn''\<rparr> ''TikTok'' = ''''
   \<and> map_of (banners \<lparr>base_url = ''https://cdn''\<rparr>) ''footer'' = None
   \<and> lib_get_banner \<lparr>base_url = ''https://cdn''\<rparr> ''footer'' = ''''"
  using C5_unknown_key_lookups [of "\<lparr>base_url = ''https://cdn''\<rparr>" "''dark''" "''TikTok''" "''footer''"]
  by (simp add: logos_def social_def banners_def lower_def lower_char_def)

section \<open>One resolution per occurrence\<close>

text \<open>
  C1, as stated, fails: the pass keeps no memory of earlier resolutions. Two image modules
  with the reference \<open>hero-launch\<close> cause two invocations of the asset manager and two of
  the placeholder provider for that string; and when their alternative texts differ, the
  two modules end with different URLs, the dictionary keeping the later one.
\<close>

theorem C1_no_memoization_counterexample:
  "(case resolve_assets (manager Placeholder) offline ([], [])
           (one_column_document
              [image_module ''hero-launch'' '''', image_module ''hero-launch'' ''''])
    of Inr (D', amap, tr) \<Rightarrow>
         filter manager_call tr
           = [GetImage ''hero-launch'' 800 600 False, GetImage ''hero-launch'' 800 600 False]
         \<and> length (filter (\<lambda>c. c = PlaceholderUrl ''hero-launch'' 800 600) tr) = 2
     | Inl e \<Rightarrow> False)
   \<and> (case resolve_assets (manager Placeholder) offline ([], [])
           (one_column_document
              [image_module ''hero-launch'' ''Launch'', image_module ''hero-launch'' ''Rocket''])
    of Inr (D', amap, tr) \<Rightarrow>
         image_srcs D' = [''https://placehold.co/800x600/e5e7eb/1f2937?text=Launch'',
                          ''https://placehold.co/800x600/e5e7eb/1f2937?text=Rocket'']
         \<and> amap = [(''hero-launch'', ''https://placehold.co/800x600/e5e7eb/1f2937?text=Rocket'')]
     | Inl e \<Rightarrow> False)"
  by code_simp

text \<open>
  C1, amended: in every pass that starts with an empty dictionary, the asset manager is
  invoked once for every image module (once per occurrence of a reference string, not once
  per string), and the dictionary that the pass returns holds exactly one entry per
  reference string that occurs, whose value is the URL with which the last module carrying
  that reference ended.
\<close>

theorem C1_one_invocation_per_occurrence:
  assumes "resolve_assets am w ([], []) D = Inr (D', amap, tr)"
  shows "length (filter manager_call tr) = length (image_srcs D)
         \<and> distinct (map fst amap) \<and> set (map fst amap) = set (image_srcs D)
         \<and> map_of amap = last_wins (image_srcs D) (image_srcs D')"
  using resolve_calls(1) [OF assms] resolve_keys(1) [OF assms] resolve_map(1) [OF assms]
  by simp

theorem C1_one_invocation_per_occurrence_witness:
  "resolve_assets (manager Placeholder) offline ([], [])
       (one_column_document [image_module ''hero-launch'' ''Launch'', image_module ''logo-white'' ''''])
     = Inr (one_column_document
              [image_module ''https://placehold.co/800x600/e5e7eb/1f2937?text=Launch'' ''Launch'',
               image_module ''https://your-cdn.com/assets/logo-white.png'' ''''],
            [(''hero-launch'', ''https://placehold.co/800x600/e5e7eb/1f2937?text=Launch''),
             (''logo-white'', ''https://your-cdn.com/assets/logo-white.png'')],
            [GetImage ''Launch'' 800 600 False, PlaceholderUrl ''Launch'' 800 600,
             GetLogo ''white''])
   \<and> length (filter manager_call
         [GetImage ''Launch'' 800 600 False, PlaceholderUrl ''Launch'' 800 600, GetLogo ''white''])
       = length (image_srcs (one_column_document
           [image_module ''hero-launch'' ''Launch'', image_module ''logo-white'' '''']))"
proof -
  have h: "resolve_assets (manager Placeholder) offline ([], [])
       (one_column_document [image_module ''hero-launch'' ''Launch'', image_module ''logo-white'' ''''])
     = Inr (one_column_document
              [image_module ''https://placehold.co/800x600/e5e7eb/1f2937?text=Launch'' ''Launch'',
               image_module ''https://your-cdn.com/assets/logo-white.png'' ''''],
            [(''hero-launch'', ''https://placehold.co/800x600/e5e7eb/1f2937?text=Launch''),
             (''logo-white'', ''https://your-cdn.com/assets/logo-white.png'')],
            [GetImage ''Launch'' 800 600 False, PlaceholderUrl ''Launch'' 800 600,
             GetLogo ''white''])"
    by code_simp
  from C1_one_invocation_per_occurrence [OF h] h show ?thesis by blast
qed

section \<open>Strategy selection in get_image\<close>

text \<open>
  C2, as stated, fails for the policies \<open>unsplash\<close> and \<open>placeholder\<close>: with the hint set,
  the generative provider is not called, the policy's own provider is.
\<close>

theorem C2_use_ai_ignored_counterexample:
  "get_image (manager Placeholder) offline [] ''hero'' 800 600 True
     = Inr (''https://placehold.co/800x600/e5e7eb/1f2937?text=hero'',
            [GetImage ''hero'' 800 600 True, PlaceholderUrl ''hero'' 800 600])
   \<and> get_image (manager Unsplash) offline [] ''hero'' 800 600 True
     = Inr (''https://source.unsplash.com/800x600/?hero'',
            [GetImage ''hero'' 800 600 True, UnsplashUrl ''hero'' 800 600])"
  by code_simp

text \<open>
  C2, amended: with the hint set, the generative provider is called under the policies
  \<open>dalle\<close> and \<open>mixed\<close> (once the size class is computed); under \<open>unsplash\<close> and
  \<open>placeholder\<close> the hint is ignored and the answer is the stock-photo URL template,
  respectively the placeholder. Under \<open>mixed\<close> without the hint, the authenticated search
  is called first, and the placeholder provider after it when the search gives no URL or
  an empty one.
\<close>

theorem C2_strategy_selection:
  "(use_ai \<and> strategy am \<in> {Dalle, Mixed} \<and> get_dalle_size width height = Inr sz \<longrightarrow>
      (\<exists>url. get_image am w tr d width height use_ai
         = Inr (url, tr @ [GetImage d width height use_ai, GenerateImage d sz])))
   \<and> (strategy am = Unsplash \<longrightarrow>
        get_image am w tr d width height use_ai
          = Inr (unsplash_get_image_url d width height,
                 tr @ [GetImage d width height use_ai, UnsplashUrl d width height]))
   \<and> (strategy am = Placeholder \<longrightarrow>
        get_image am w tr d width height use_ai
          = Inr (placeholder_get_image_url d width height,
                 tr @ [GetImage d width height use_ai, PlaceholderUrl d width height]))
   \<and> (strategy am = Mixed \<and> \<not> use_ai \<longrightarrow>
        get_image am w tr d width height use_ai
          = (case fst (search_specific_image w (tr @ [GetImage d width height use_ai]) d) of
               Some url \<Rightarrow>
                 if url \<noteq> [] then
                   Inr (url, tr @ [GetImage d width height use_ai, SearchSpecificImage d])
                 else
                   Inr (placeholder_get_image_url d width height,
                        tr @ [GetImage d width height use_ai, SearchSpecificImage d,
                              PlaceholderUrl d width height])
             | None \<Rightarrow>
                 Inr (placeholder_get_image_url d width height,
                      tr @ [GetImage d width height use_ai, SearchSpecificImage d,
                            PlaceholderUrl d width height])))"
  by (auto simp: get_image_def generate_image_def search_specific_image_def Let_def
      split: option.splits)

theorem C2_strategy_selection_witness:
  "(\<exists>url. get_image (manager Mixed) offline [] ''hero'' 800 600 True
      = Inr (url, [GetImage ''hero'' 800 600 True, GenerateImage ''hero'' ''1024x1024'']))
   \<and> get_image (manager Unsplash) offline [] ''hero'' 800 600 True
      = Inr (unsplash_get_image_url ''hero'' 800 600,
             [GetImage ''hero'' 800 600 True, UnsplashUrl ''hero'' 800 600])
   \<and> get_image (manager Placeholder) offline [] ''hero'' 800 600 True
      = Inr (placeholder_get_image_url ''hero'' 800 600,
             [GetImage ''hero'' 800 600 True, PlaceholderUrl ''hero'' 800 600])
   \<and> get_image (manager Mixed) offline [] ''hero'' 800 600 False
      = Inr (placeholder_get_image_url ''hero'' 800 600,
             [GetImage ''hero'' 800 600 False, SearchSpecificImage ''hero'',
              PlaceholderUrl ''hero'' 800 600])"
  using
    C2_strategy_selection [where use_ai = True and am = "manager Mixed" and width = 800
      and height = 600 and sz = "''1024x1024''" and w = offline and tr = "[]" and d = "''hero''"]
    C2_strategy_selection [where use_ai = True and am = "manager Unsplash" and width = 800
      and height = 600 and w = offline and tr = "[]" and d = "''hero''"]
    C2_strategy_selection [where use_ai = True and am = "manager Placeholder" and width = 800
      and height = 600 and w = offline and tr = "[]" and d = "''hero''"]
    C2_strategy_selection [where use_ai = False and am = "manager Mixed" and width = 800
      and height = 600 and w = offline and tr = "[]" and d = "''hero''"]
  by (simp add: manager_def get_dalle_size_default search_specific_image_def offline_def)

section \<open>The marker of a generated image\<close>

text \<open>
  C3: the reference \<open>Custom-hero\<close> has neither prefix and contains \<open>custom\<close> when letter
  case is ignored, yet the pass does not ask for a generated image: only the test for
  \<open>generate\<close> lower-cases the reference, the test for \<open>custom\<close> reads it as it is. Under
  the policy \<open>mixed\<close> the module is resolved by search and placeholder.
\<close>

theorem C3_custom_marker_case_sensitive:
  "\<not> startswith ''Custom-hero'' ''logo-'' \<and> \<not> startswith ''Custom-hero'' ''social-''
   \<and> contains ''custom'' (lower ''Custom-hero'') \<and> \<not> use_ai_of ''Custom-hero''
   \<and> use_ai_of ''Generate-hero''
   \<and> (case resolve_assets (manager Mixed) offline ([], []) (image_module ''Custom-hero'' '''')
       of Inr (D', amap, tr) \<Rightarrow>
            tr = [GetImage ''Custom-hero'' 800 600 False, SearchSpecificImage ''Custom-hero'',
                  PlaceholderUrl ''Custom-hero'' 800 600]
        | Inl e \<Rightarrow> False)"
  by code_simp

section \<open>The size class on the sizes of images\<close>

text \<open>
  For a positive height and a non-negative width below \<open>2^49\<close> the division does not
  overflow and the two comparisons of the float are those of the exact quotient with
  \<open>3/2\<close> and \<open>7/10\<close>.
\<close>

lemma get_dalle_size_image_sizes:
  assumes "0 < height" "height < 2 ^ 49" "0 \<le> width" "width < 2 ^ 49"
  shows "get_dalle_size width height =
           Inr (if 2 * width > 3 * height then ''1792x1024''
                else if 10 * width < 7 * height then ''1024x1792''
                else ''1024x1024'')"
proof -
  define h :: rat where "h = of_int height"
  define w :: rat where "w = of_int width"
  have "(of_int 0 :: rat) < of_int height" using assms(1) by (simp only: of_int_less_iff)
  then have h0: "0 < h" by (simp add: h_def)
  have "(of_int height :: rat) < of_int (2 ^ 49)" using assms(2) by (simp only: of_int_less_iff)
  then have h2: "h < 2 ^ 49" by (simp add: h_def)
  have "(of_int 0 :: rat) \<le> of_int width" using assms(3) by (simp only: of_int_le_iff)
  then have w0: "0 \<le> w" by (simp add: w_def)
  have "(of_int width :: rat) < of_int (2 ^ 49)" using assms(4) by (simp only: of_int_less_iff)
  then have w2: "w < 2 ^ 49" by (simp add: w_def)
  note h = h0 h2 and w = w0 w2
  from assms(1) have "1 \<le> height" by simp
  then have "(of_int 1 :: rat) \<le> of_int height" by (simp only: of_int_le_iff)
  then have h1: "1 \<le> h" by (simp add: h_def)
  have "w * 1 \<le> w * h" using h1 w0 by (rule mult_left_mono)
  then have "w / h \<le> w" using h0 by (simp add: divide_le_eq)
  with w h have o: "\<not> (2 ^ 1024 - 2 ^ 970 \<le> \<bar>w / h\<bar>)" by simp
  have l: "(3 / 2 + 1 / 2 ^ 53 < w / h) \<longleftrightarrow> (2 * width > 3 * height)"
  proof
    assume "3 / 2 + 1 / 2 ^ 53 < w / h"
    with h have "3 / 2 * h < w" by (simp add: pos_less_divide_eq algebra_simps)
    then have "of_int (3 * height) < (of_int (2 * width) :: rat)" by (simp add: h_def w_def)
    then show "2 * width > 3 * height" by (simp only: of_int_less_iff)
  next
    assume "2 * width > 3 * height"
    then have "3 * height + 1 \<le> 2 * width" by simp
    then have "(of_int (3 * height + 1) :: rat) \<le> of_int (2 * width)" by (simp only: of_int_le_iff)
    then have "3 * h + 1 \<le> 2 * w" by (simp add: h_def w_def)
    with h have "(3 / 2 + 1 / 2 ^ 53) * h < w" by (simp add: algebra_simps)
    with h show "3 / 2 + 1 / 2 ^ 53 < w / h" by (simp add: pos_less_divide_eq)
  qed
  have p: "(w / h < 6305039478318694 / 2 ^ 53 - 1 / 2 ^ 54) \<longleftrightarrow> (10 * width < 7 * height)"
  proof
    assume "w / h < 6305039478318694 / 2 ^ 53 - 1 / 2 ^ 54"
    with h have "w < 7 / 10 * h" by (simp add: pos_divide_less_eq algebra_simps)
    then have "(of_int (10 * width) :: rat) < of_int (7 * height)" by (simp add: h_def w_def)
    then show "10 * width < 7 * height" by (simp only: of_int_less_iff)
  next
    assume "10 * width < 7 * height"
    then have "10 * width + 1 \<le> 7 * height" by simp
    then have "(of_int (10 * width + 1) :: rat) \<le> of_int (7 * height)" by (simp only: of_int_le_iff)
    then have "10 * w + 1 \<le> 7 * h" by (simp add: h_def w_def)
    with h have "w < (6305039478318694 / 2 ^ 53 - 1 / 2 ^ 54) * h" by (simp add: algebra_simps)
    with h show "w / h < 6305039478318694 / 2 ^ 53 - 1 / 2 ^ 54" by (simp add: pos_divide_less_eq)
  qed
  show ?thesis
    using assms(1) o l p unfolding get_dalle_size_def Let_def h_def w_def by auto
qed

section \<open>Division by the height\<close>




section \<open>Fallback to the placeholder\<close>

text \<open>
  C8, as stated, fails: the placeholder URL carries the first 50 characters of the
  description only. Here the search gives no result (there is no key), the reference has
  61 characters, and its escaped form does not occur in the URL of the module.
\<close>

theorem C8_description_truncated_counterexample:
  "(case resolve_assets (manager Mixed) offline ([], [])
           (image_module ''team-office-with-a-very-long-description-of-the-people-in-it'' '''')
    of Inr (D', amap, tr) \<Rightarrow>
         tr = [GetImage ''team-office-with-a-very-long-description-of-the-people-in-it'' 800 600 False,
               SearchSpecificImage ''team-office-with-a-very-long-description-of-the-people-in-it'',
               PlaceholderUrl ''team-office-with-a-very-long-description-of-the-people-in-it'' 800 600]
         \<and> image_srcs D'
             = [''https://placehold.co/800x600/e5e7eb/1f2937?text=team-office-with-a-very-long-description-of-the-pe'']
         \<and> \<not> contains (quote ''team-office-with-a-very-long-description-of-the-people-in-it'')
               (hd (image_srcs D'))
     | Inl e \<Rightarrow> False)"
  by code_simp

text \<open>
  C8, amended: under the policy \<open>mixed\<close>, for an image module whose reference has neither
  prefix and does not carry a marker of a generated image, when the search for its query
  (the alternative text, or the reference when that text is empty) gives no URL or an
  empty one, the module ends with the placeholder URL that carries the escaped first 50
  characters of the query, after the calls of \<open>get_image\<close>, the search and the placeholder
  in this order. The query is a string of code points below 256, which \<^verbatim>\<open>quote\<close> always
  encodes; nothing is said here of what the pass does on other strings.
\<close>

theorem C8_placeholder_fallback:
  "(strategy am = Mixed \<and> map_of fs ''src'' = Some (VStr d) \<and> map_of fs ''alt'' = Some (VStr a)
      \<and> \<not> startswith d ''logo-'' \<and> \<not> startswith d ''social-'' \<and> \<not> use_ai_of d
      \<and> q = (if a = [] then d else a)
      \<and> fst (search_specific_image w (tr @ [GetImage q 800 600 False]) q) \<in> {None, Some []}
    \<longrightarrow> resolve_image am w (amap, tr) ''ImageModule'' fs
        = Inr (VObj ''ImageModule''
                 (AList.update ''src''
                    (VStr (''https://placehold.co/800x600/e5e7eb/1f2937?text='' @ quote (take 50 q)))
                    fs),
               AList.update d
                 (''https://placehold.co/800x600/e5e7eb/1f2937?text='' @ quote (take 50 q)) amap,
               tr @ [GetImage q 800 600 False, SearchSpecificImage q, PlaceholderUrl q 800 600]))"
proof (intro impI)
  assume h: "strategy am = Mixed \<and> map_of fs ''src'' = Some (VStr d)
      \<and> map_of fs ''alt'' = Some (VStr a)
      \<and> \<not> startswith d ''logo-'' \<and> \<not> startswith d ''social-'' \<and> \<not> use_ai_of d
      \<and> q = (if a = [] then d else a)
      \<and> fst (search_specific_image w (tr @ [GetImage q 800 600 False]) q) \<in> {None, Some []}"
  have s: "str_int 800 = ''800''" "str_int 600 = ''600''" by code_simp+
  have p: "\<And>x. placeholder_get_image_url x 800 600
         = ''https://placehold.co/800x600/e5e7eb/1f2937?text='' @ quote (take 50 x)"
    by (simp add: placeholder_get_image_url_def s)
  have t: "snd (search_specific_image w (tr @ [GetImage q 800 600 False]) q)
         = tr @ [GetImage q 800 600 False, SearchSpecificImage q]"
    by (simp add: search_specific_image_def)
  from h have g: "get_image am w tr q 800 600 False
         = Inr (placeholder_get_image_url q 800 600,
                tr @ [GetImage q 800 600 False, SearchSpecificImage q, PlaceholderUrl q 800 600])"
    using t by (cases "search_specific_image w (tr @ [GetImage q 800 600 False]) q")
      (auto simp: get_image_def Let_def)
  from h have "alt_or fs d = Inr q" by (simp add: alt_or_def)
  with h g have "resolve_description am w tr fs d
         = Inr (placeholder_get_image_url q 800 600,
                tr @ [GetImage q 800 600 False, SearchSpecificImage q, PlaceholderUrl q 800 600])"
    by (simp add: resolve_description_def)
  with h show "resolve_image am w (amap, tr) ''ImageModule'' fs
        = Inr (VObj ''ImageModule''
                 (AList.update ''src''
                    (VStr (''https://placehold.co/800x600/e5e7eb/1f2937?text='' @ quote (take 50 q)))
                    fs),
               AList.update d
                 (''https://placehold.co/800x600/e5e7eb/1f2937?text='' @ quote (take 50 q)) amap,
               tr @ [GetImage q 800 600 False, SearchSpecificImage q, PlaceholderUrl q 800 600])"
    by (simp add: resolve_image_def p)
qed

theorem C8_placeholder_fallback_witness:
  "resolve_image (manager Mixed) offline ([], []) ''ImageModule''
       [(''type'', VStr ''image''), (''src'', VStr ''team-office''), (''alt'', VStr ''Our team''),
        (''href'', VNone), (''target'', VNone)]
     = Inr (VObj ''ImageModule''
              [(''type'', VStr ''image''),
               (''src'', VStr ''https://placehold.co/800x600/e5e7eb/1f2937?text=Our%20team''),
               (''alt'', VStr ''Our team''), (''href'', VNone), (''target'', VNone)],
            [(''team-office'', ''https://placehold.co/800x600/e5e7eb/1f2937?text=Our%20team'')],
            [GetImage ''Our team'' 800 600 False, SearchSpecificImage ''Our team'',
             PlaceholderUrl ''Our team'' 800 600])"
proof -
  have e: "quote (take 50 ''Our team'') = ''Our%20team''" by code_simp
  have n: "\<not> startswith ''team-office'' ''logo-'' \<and> \<not> startswith ''team-office'' ''social-''
           \<and> \<not> use_ai_of ''team-office''"
    by code_simp
  have f: "fst (search_specific_image offline [GetImage ''Our team'' 800 600 False] ''Our team'')
           = None"
    by (simp add: search_specific_image_def offline_def)
  from C8_placeholder_fallback [where am = "manager Mixed" and w = offline and tr = "[]"
      and amap = "[]" and d = "''team-office''" and a = "''Our team''" and q = "''Our team''"
      and fs = "[(''type'', VStr ''image''), (''src'', VStr ''team-office''),
                 (''alt'', VStr ''Our team''), (''href'', VNone), (''target'', VNone)]"]
    e n f
  show ?thesis by (simp add: manager_def)
qed

section \<open>The frame of a pass\<close>

text \<open>
  C9: the pass over a validated document returns a document that is the given one in
  everything but the reference fields of its image modules: blanking these fields in both
  gives the same value, so rows, columns and modules are the same in number and order and
  every other field is untouched; and the image modules are as many as before.
\<close>

theorem C9_only_image_references_change:
  assumes "validate cv AM_EmailTemplate_ty j = Inr D"
  shows "\<exists>D' st'. resolve_assets am w st D = Inr (D', st')
           \<and> erase_src D' = erase_src D
           \<and> length (image_srcs D') = length (image_srcs D)"
proof -
  from assms have "images_ok D" by (rule validated_images_ok [OF validate_conf(1)])
  then obtain D' st' where r: "resolve_assets am w st D = Inr (D', st')"
    using resolve_total(1) by blast
  from resolve_frame(1) [OF r] resolve_map(1) [OF r] r show ?thesis by blast
qed

theorem C9_only_image_references_change_witness:
  "validate exact_only AM_EmailTemplate_ty
       (one_column_json [image_json ''team-office'' ''Our team'',
                         JObj [(''type'', JStr ''paragraph'')]])
     = Inr (one_column_document
              [image_module ''team-office'' ''Our team'',
               VObj ''Module'' [(''type'', VStr ''paragraph'')]])
   \<and> (\<exists>D' st'.
        resolve_assets (manager Mixed) offline ([], [])
          (one_column_document
             [image_module ''team-office'' ''Our team'',
              VObj ''Module'' [(''type'', VStr ''paragraph'')]])
          = Inr (D', st')
        \<and> erase_src D'
          = erase_src (one_column_document
              [image_module ''team-office'' ''Our team'',
               VObj ''Module'' [(''type'', VStr ''paragraph'')]])
        \<and> length (image_srcs D')
          = length (image_srcs (one_column_document
              [image_module ''team-office'' ''Our team'',
               VObj ''Module'' [(''type'', VStr ''paragraph'')]])))"
proof -
  have v: "validate exact_only AM_EmailTemplate_ty
       (one_column_json [image_json ''team-office'' ''Our team'',
                         JObj [(''type'', JStr ''paragraph'')]])
     = Inr (one_column_document
              [image_module ''team-office'' ''Our team'',
               VObj ''Module'' [(''type'', VStr ''paragraph'')]])"
    by code_simp
  from C9_only_image_references_change [OF v, of "manager Mixed" offline "([], [])"] v
  show ?thesis by blast
qed

section \<open>What validation rejects\<close>

lemma with_field_Inl:
  "with_field n r rest = Inl e \<longleftrightarrow> (r = Inl e \<or> (\<exists>v. r = Inr v) \<and> rest = Inl e)"
  by (auto simp: with_field_def split: sum.splits)

lemma validate_error:
  "validate cv t j = Inl e \<Longrightarrow> e = ValidationError"
  "validate_items cv t js = Inl e \<Longrightarrow> e = ValidationError"
  "validate_fields cv b fs d = Inl e \<Longrightarrow> e = ValidationError"
  "validate_union cv ts j = Inl e \<Longrightarrow> e = ValidationError"
proof (induction cv t j and cv t js and cv b fs d and cv ts j
    rule: validate_validate_items_validate_fields_validate_union.induct)
  case (7 cv t mn mx j)
  then show ?case by (auto split: json.splits if_splits sum.splits)
next
  case (8 cv c by_name fs j)
  then show ?case by (auto split: json.splits sum.splits)
next
  case (11 cv t j js)
  then show ?case by (auto split: sum.splits)
next
  case (13 cv by_name n a t fs d)
  then show ?case by (auto simp: with_field_Inl split: option.splits)
next
  case (14 cv by_name n a t fs d)
  then show ?case by (auto simp: with_field_Inl split: option.splits if_splits)
next
  case (16 cv t ts j)
  then show ?case by (auto split: sum.splits)
qed (auto split: option.splits if_splits json.splits)

lemma not_Inr_error: "(\<forall>v. r \<noteq> Inr v) \<Longrightarrow> \<exists>e. r = Inl e"
  by (cases r) auto

lemma validate_items_reject:
  "m \<in> set ms \<Longrightarrow> validate cv t m = Inl e \<Longrightarrow> validate_items cv t ms = Inl ValidationError"
proof (induction ms)
  case (Cons x xs)
  show ?case
  proof (cases "validate cv t x")
    case (Inl e')
    with validate_error(1) [OF Inl] show ?thesis by simp
  next
    case (Inr v)
    with Cons have "validate_items cv t xs = Inl ValidationError" by auto
    with Inr show ?thesis by simp
  qed
qed simp

lemma validate_fields_reject:
  "Req n a t \<in> set fs \<Longrightarrow> (case lookup_field b (Req n a t) d of
       None \<Rightarrow> True | Some j \<Rightarrow> validate cv t j = Inl ValidationError)
     \<Longrightarrow> validate_fields cv b fs d = Inl ValidationError"
proof (induction fs)
  case (Cons f fs)
  show ?case
  proof (cases "f = Req n a t")
    case True
    with Cons.prems(2) show ?thesis
      by (auto simp: with_field_def split: option.splits)
  next
    case False
    with Cons have r: "validate_fields cv b fs d = Inl ValidationError" by auto
    have "\<exists>e. validate_fields cv b (f # fs) d = Inl e"
      using r by (cases f) (auto simp: with_field_def split: option.splits sum.splits)
    with validate_error(3) show ?thesis by blast
  qed
qed simp

lemma json_list_elem:
  assumes "x \<in> set (json_list n j)"
  shows "\<exists>d js. j = JObj d \<and> map_of d n = Some (JArr js) \<and> x \<in> set js"
proof (cases j)
  case (JObj d)
  show ?thesis
  proof (cases "map_of d n")
    case None
    with JObj assms show ?thesis by (simp add: json_list_def)
  next
    case (Some y)
    with JObj assms show ?thesis by (cases y) (simp_all add: json_list_def)
  qed
qed (use assms in \<open>simp_all add: json_list_def\<close>)

lemma model_rejects_item:
  assumes "Req n n (TList t mn mx) \<in> set fs" "x \<in> set (json_list n j)"
    "validate cv t x = Inl e"
  shows "validate cv (TModel c b fs) j = Inl ValidationError"
proof -
  from json_list_elem [OF assms(2)] obtain d js where
    j: "j = JObj d" and l: "map_of d n = Some (JArr js)" and x: "x \<in> set js"
    by blast
  from l have "lookup_field b (Req n n (TList t mn mx)) d = Some (JArr js)"
    by (simp add: lookup_field_def)
  moreover have "validate cv (TList t mn mx) (JArr js) = Inl ValidationError"
    using validate_items_reject [OF x assms(3)] by simp
  ultimately have "validate_fields cv b fs d = Inl ValidationError"
    using validate_fields_reject [OF assms(1), where b = b and d = d and cv = cv] by simp
  with j show ?thesis by simp
qed

lemma model_rejects_attr:
  assumes "Req n n t \<in> set fs" "validate cv t (json_attr n j) = Inl e"
  shows "validate cv (TModel c b fs) j = Inl ValidationError"
proof (cases j)
  case (JObj d)
  have "case lookup_field b (Req n n t) d of
       None \<Rightarrow> True | Some j \<Rightarrow> validate cv t j = Inl ValidationError"
    using assms(2) validate_error(1) [OF assms(2)] JObj
    by (auto simp: lookup_field_def json_attr_def split: option.splits)
  from validate_fields_reject [OF assms(1) this] JObj show ?thesis by simp
qed simp_all

lemma tagged_member_rejects:
  assumes "tags T \<noteq> []" "map_of d ''type'' = Some (JStr s)" "s \<notin> set (tags T)"
  shows "validate cv T (JObj d) = Inl ValidationError"
  using assms
  by (cases T rule: tags.cases)
    (auto simp: lookup_field_def with_field_def split: if_splits)

lemma union_rejects:
  "list_all (\<lambda>T. tags T \<noteq> []) ts \<Longrightarrow> map_of d ''type'' = Some (JStr s)
     \<Longrightarrow> s \<notin> set (concat (map tags ts))
     \<Longrightarrow> validate_union cv ts (JObj d) = Inl ValidationError"
  by (induction ts) (auto simp: tagged_member_rejects)

lemma Module_tags:
  "Module = TUnion ts \<Longrightarrow> list_all (\<lambda>T. tags T \<noteq> []) ts \<and> concat (map tags ts) = module_tags"
  by (auto simp: Module_def ButtonModule_ty_def DividerModule_ty_def HtmlModule_ty_def
      IconsModule_ty_def ImageModule_ty_def ListModule_ty_def MenuModule_ty_def
      ParagraphModule_ty_def TitleModule_ty_def module_tags_def)

lemma Module_rejects:
  assumes "type_tag m = Some s" "s \<notin> set module_tags"
  shows "validate cv Module m = Inl ValidationError"
proof -
  from assms(1) obtain d where m: "m = JObj d" and t: "map_of d ''type'' = Some (JStr s)"
    by (auto simp: type_tag_def split: json.splits option.splits)
  obtain ts where ts: "Module = TUnion ts" by (simp add: Module_def)
  from Module_tags [OF ts] assms(2) union_rejects [of ts d s cv] t
  have "validate_union cv ts (JObj d) = Inl ValidationError" by simp
  then show ?thesis unfolding m ts by simp
qed

lemma conf_attr_first:
  "conf (TModel c b (Req n a t # fs)) v \<Longrightarrow> conf t (attr n v)"
  by (cases v) (auto simp: attr_def split: list.splits)

lemma conf_attr_second:
  "conf (TModel c b (Req n1 a1 t1 # Req n a t # fs)) v \<Longrightarrow> n1 \<noteq> n \<Longrightarrow> conf t (attr n v)"
  by (cases v) (auto simp: attr_def split: list.splits)

lemma conf_items_all: "conf_items t vs \<Longrightarrow> x \<in> set vs \<Longrightarrow> conf t x"
  by (induction vs) auto

lemma conf_list_items:
  "conf (TList t mn mx) v \<Longrightarrow>
   ge_ok mn (length (items v)) \<and> le_ok mx (length (items v)) \<and> (\<forall>x\<in>set (items v). conf t x)"
  by (cases v) (auto simp: items_def dest: conf_items_all)

lemma validated_rows:
  assumes "validate cv EmailTemplate_ty j = Inr D" "row \<in> set (rows D)"
  shows "conf Row_ty row"
proof -
  from validate_conf(1) [OF assms(1)] have "conf Template_ty (attr ''template'' D)"
    unfolding EmailTemplate_ty_def by (rule conf_attr_first)
  then have "conf (TList Row_ty (Some 1) None) (attr ''rows'' (attr ''template'' D))"
    unfolding Template_ty_def by (rule conf_attr_second) simp
  from conf_list_items [OF this] assms(2) show ?thesis by (simp add: rows_def)
qed

lemma Row_columns:
  assumes "conf Row_ty row"
  shows "1 \<le> length (columns row) \<and> length (columns row) \<le> 12
         \<and> (\<forall>col\<in>set (columns row). conf Column_ty col)"
proof -
  from assms have "conf (TList Column_ty (Some 1) (Some 12)) (attr ''columns'' row)"
    unfolding Row_ty_def by (rule conf_attr_second) simp
  from conf_list_items [OF this] show ?thesis by (simp add: columns_def ge_ok_def le_ok_def)
qed

lemma Row_rejects:
  assumes "map_of d ''columns'' = Some (JArr cs)" "length cs = 0 \<or> 12 < length cs"
  shows "validate cv Row_ty (JObj d) = Inl ValidationError"
proof -
  have "validate cv (TList Column_ty (Some 1) (Some 12)) (JArr cs) = Inl ValidationError"
    using assms(2) by (auto simp: ge_ok_def le_ok_def)
  with assms(1) have "case lookup_field True (Req ''columns'' ''columns'' (TList Column_ty (Some 1) (Some 12))) d of
       None \<Rightarrow> True | Some j \<Rightarrow> validate cv (TList Column_ty (Some 1) (Some 12)) j = Inl ValidationError"
    by (simp add: lookup_field_def)
  then have "validate_fields cv True
      (case Row_ty of TModel c b fs \<Rightarrow> fs | _ \<Rightarrow> []) d = Inl ValidationError"
    unfolding Row_ty_def by (intro validate_fields_reject [where n = "''columns''" and a = "''columns''"
          and t = "TList Column_ty (Some 1) (Some 12)"]) simp_all
  then show ?thesis by (simp add: Row_ty_def)
qed

section \<open>Rows of one to twelve columns\<close>

text \<open>
  C4, as stated, fails in its last part: the declaration of \<open>modules\<close> carries no minimum
  length, and a column without modules is accepted.
\<close>

theorem C4_empty_column_accepted_counterexample:
  "(case validate exact_only EmailTemplate_ty (document_json [row_json [column_json []]]) of
      Inr D \<Rightarrow> map (\<lambda>row. map (\<lambda>col. length (modules col)) (columns row)) (rows D) = [[0]]
    | Inl e \<Rightarrow> False)"
  by code_simp

text \<open>
  C4, amended: every row of a document that the validator of agent.py accepts has at least
  1 and at most 12 columns; a row whose list of columns is empty or longer than 12 is
  rejected, rows of 1 and of 12 columns are accepted. (Nothing is required of the number
  of modules of a column.)
\<close>

theorem C4_rows_have_1_to_12_columns:
  "(validate cv EmailTemplate_ty j = Inr D \<longrightarrow>
      (\<forall>row\<in>set (rows D). 1 \<le> length (columns row) \<and> length (columns row) \<le> 12))
   \<and> (map_of d ''columns'' = Some (JArr cs) \<and> (length cs = 0 \<or> 12 < length cs) \<longrightarrow>
        validate cv Row_ty (JObj d) = Inl ValidationError)
   \<and> (case validate exact_only Row_ty (row_json (replicate 1 (column_json []))) of
         Inr row \<Rightarrow> length (columns row) = 1 | Inl e \<Rightarrow> False)
   \<and> (case validate exact_only Row_ty (row_json (replicate 12 (column_json []))) of
         Inr row \<Rightarrow> length (columns row) = 12 | Inl e \<Rightarrow> False)"
proof (intro conjI impI ballI)
  fix row assume "validate cv EmailTemplate_ty j = Inr D" "row \<in> set (rows D)"
  from Row_columns [OF validated_rows [OF this]]
  show "1 \<le> length (columns row)" "length (columns row) \<le> 12" by simp_all
next
  assume "map_of d ''columns'' = Some (JArr cs) \<and> (length cs = 0 \<or> 12 < length cs)"
  then show "validate cv Row_ty (JObj d) = Inl ValidationError"
    using Row_rejects by blast
next
  show "case validate exact_only Row_ty (row_json (replicate 1 (column_json []))) of
         Inr row \<Rightarrow> length (columns row) = 1 | Inl e \<Rightarrow> False"
    by code_simp
next
  show "case validate exact_only Row_ty (row_json (replicate 12 (column_json []))) of
         Inr row \<Rightarrow> length (columns row) = 12 | Inl e \<Rightarrow> False"
    by code_simp
qed

theorem C4_rows_have_1_to_12_columns_witness:
  "(\<exists>D. validate exact_only EmailTemplate_ty (document_json [row_json [column_json []]]) = Inr D
        \<and> (\<forall>row\<in>set (rows D). 1 \<le> length (columns row) \<and> length (columns row) \<le> 12))
   \<and> map_of [(''name'', JStr ''main''), (''columns'', JArr [])] ''columns'' = Some (JArr [])
   \<and> validate exact_only Row_ty (JObj [(''name'', JStr ''main''), (''columns'', JArr [])])
       = Inl ValidationError"
proof -
  have "case validate exact_only EmailTemplate_ty (document_json [row_json [column_json []]]) of
          Inr D \<Rightarrow> True | Inl e \<Rightarrow> False"
    by code_simp
  then obtain D where
    D: "validate exact_only EmailTemplate_ty (document_json [row_json [column_json []]]) = Inr D"
    by (cases "validate exact_only EmailTemplate_ty (document_json [row_json [column_json []]])")
      simp_all
  have m: "map_of [(''name'', JStr ''main''), (''columns'', JArr [])] ''columns'' = Some (JArr [])"
    by simp
  from C4_rows_have_1_to_12_columns [where cv = exact_only
      and j = "document_json [row_json [column_json []]]" and D = D
      and d = "[(''name'', JStr ''main''), (''columns'', JArr [])]" and cs = "[]"] D m
  show ?thesis by simp
qed

section \<open>Module tags outside the declared classes\<close>

text \<open>
  C6, as stated, fails for the classes of asset_manager.py, which the asset pipeline
  validates with: the union of a column ends with the base class \<open>Module\<close>, whose tag is
  any string, and a module tagged \<open>unknown-widget\<close> is accepted as an instance of it that
  carries its tag only.
\<close>

theorem C6_simplified_model_accepts_counterexample:
  "validate exact_only AM_EmailTemplate_ty
       (one_column_json [JObj [(''type'', JStr ''unknown-widget'')]])
     = Inr (one_column_document [VObj ''Module'' [(''type'', VStr ''unknown-widget'')]])"
  by code_simp

text \<open>
  C6, amended: the validator of agent.py rejects every input in which a module of a
  column of a row of the template carries a tag outside the ten tags of its nine module
  classes, with the one error of the validation library; no document is built, so the
  module is neither dropped nor accepted.
\<close>

theorem C6_unknown_module_tag_rejected:
  assumes "m \<in> set (module_entries j)" "type_tag m = Some s" "s \<notin> set module_tags"
  shows "validate cv EmailTemplate_ty j = Inl ValidationError"
proof -
  from assms(1) obtain row col where
    row: "row \<in> set (json_list ''rows'' (json_attr ''template'' j))" and
    col: "col \<in> set (json_list ''columns'' row)" and
    m: "m \<in> set (json_list ''modules'' col)"
    by (auto simp: module_entries_def)
  have 1: "validate cv Module m = Inl ValidationError"
    using assms(2,3) by (rule Module_rejects)
  have 2: "validate cv Column_ty col = Inl ValidationError"
    unfolding Column_ty_def
    by (rule model_rejects_item [where n = "''modules''" and t = Module, OF _ m 1]) simp
  have 3: "validate cv Row_ty row = Inl ValidationError"
    unfolding Row_ty_def
    by (rule model_rejects_item [where n = "''columns''" and t = Column_ty, OF _ col 2]) simp
  have 4: "validate cv Template_ty (json_attr ''template'' j) = Inl ValidationError"
    unfolding Template_ty_def
    by (rule model_rejects_item [where n = "''rows''" and t = Row_ty, OF _ row 3]) simp
  show ?thesis
    unfolding EmailTemplate_ty_def
    by (rule model_rejects_attr [where n = "''template''" and t = Template_ty, OF _ 4]) simp
qed

theorem C6_unknown_module_tag_rejected_witness:
  "JObj [(''type'', JStr ''unknown-widget'')]
     \<in> set (module_entries (one_column_json [JObj [(''type'', JStr ''unknown-widget'')]]))
   \<and> type_tag (JObj [(''type'', JStr ''unknown-widget'')]) = Some ''unknown-widget''
   \<and> ''unknown-widget'' \<notin> set module_tags
   \<and> validate exact_only EmailTemplate_ty
        (one_column_json [JObj [(''type'', JStr ''unknown-widget'')]]) = Inl ValidationError"
proof -
  have a: "JObj [(''type'', JStr ''unknown-widget'')]
     \<in> set (module_entries (one_column_json [JObj [(''type'', JStr ''unknown-widget'')]]))"
    by (simp add: module_entries_def one_column_json_def json_list_def json_attr_def)
  have b: "type_tag (JObj [(''type'', JStr ''unknown-widget'')]) = Some ''unknown-widget''"
    by (simp add: type_tag_def)
  have c: "''unknown-widget'' \<notin> set module_tags"
    by (simp add: module_tags_def)
  from C6_unknown_module_tag_rejected [OF a b c, of exact_only] a b c show ?thesis by blast
qed

section \<open>Reading back what was written\<close>

lemma conf_VNone:
  "\<not> conf t VNone"
  "(fs :: field list) = fs"
  "\<not> conf_union ts VNone"
  by (induction t and fs and ts rule: wf_wf_fields_wf_union.induct) auto

lemma conf_not_None: "conf t v \<Longrightarrow> v \<noteq> VNone"
  using conf_VNone(1) by blast

lemma tagged_cases:
  assumes "tags T \<noteq> []"
  obtains c b fs where "T = TModel c b (Req ''type'' ''type'' (TLiteral (tags T)) # fs)"
  using assms by (cases T rule: tags.cases) (auto split: if_splits)

lemma keys_dump_fields: "fst ` set (dump_fields fs vs) \<subseteq> falias ` set fs"
proof (induction fs arbitrary: vs)
  case (Cons f fs)
  show ?case
    using Cons [of "tl vs"] by (cases f; cases vs) (auto split: if_splits)
qed simp

lemma map_of_dump_fields_None:
  "k \<notin> falias ` set fs \<Longrightarrow> map_of (dump_fields fs vs) k = None"
  using keys_dump_fields [of fs vs] by (auto simp: map_of_eq_None_iff)

lemma dump_fields_Cons:
  "dump_fields (f # fs) (kv # vs) =
     (if snd kv = VNone then dump_fields fs vs
      else (falias f, dump (fty f) (snd kv)) # dump_fields fs vs)"
  by (cases f) auto

lemma dump_fields_append:
  "length pre = length prevs \<Longrightarrow>
   dump_fields (pre @ fs) (prevs @ vs) = dump_fields pre prevs @ dump_fields fs vs"
proof (induction pre arbitrary: prevs)
  case (Cons f pre)
  then obtain kv rest where p: "prevs = kv # rest" by (cases prevs) auto
  with Cons show ?case by (simp add: dump_fields_Cons)
qed simp

lemma lookup_dump:
  assumes "wf_names (pre @ f # post)" "length pre = length prevs"
  shows "lookup_field b f (dump_fields (pre @ f # post) (prevs @ kv # postvs))
         = (if snd kv = VNone then None else Some (dump (fty f) (snd kv)))"
proof -
  let ?d = "dump_fields (pre @ f # post) (prevs @ kv # postvs)"
  from assms(1) have a: "falias f \<notin> falias ` set pre" "falias f \<notin> falias ` set post"
    and n: "fname f = falias f \<or> (fname f \<notin> falias ` set pre \<and> fname f \<noteq> falias f
              \<and> fname f \<notin> falias ` set post)"
    by (auto simp: wf_names_def)
  have d: "?d = dump_fields pre prevs @ dump_fields (f # post) (kv # postvs)"
    using assms(2) by (rule dump_fields_append)
  have 1: "map_of ?d (falias f) = (if snd kv = VNone then None else Some (dump (fty f) (snd kv)))"
    using a by (simp add: d map_add_def map_of_dump_fields_None dump_fields_Cons)
  have 2: "snd kv = VNone \<Longrightarrow> map_of ?d (fname f) = None"
    using n a by (auto simp add: d map_add_def map_of_dump_fields_None dump_fields_Cons)
  from 1 2 show ?thesis by (auto simp: lookup_field_def)
qed

lemma validate_fields_dump:
  assumes "wf_names (pre @ fs)" "length pre = length prevs" "conf_fields fs vs"
    "\<forall>f\<in>set fs. rt cv (fty f)"
  shows "validate_fields cv b fs (dump_fields (pre @ fs) (prevs @ vs)) = Inr vs"
  using assms
proof (induction fs arbitrary: pre prevs vs)
  case Nil
  then show ?case by simp
next
  case (Cons f fs)
  from Cons.prems(3) obtain kv rest where vs: "vs = kv # rest"
    by (cases f; cases vs) auto
  from Cons.prems(3) vs have k: "fst kv = fname f" and r: "conf_fields fs rest"
    by (cases f; auto)+
  have l: "lookup_field b f (dump_fields (pre @ f # fs) (prevs @ kv # rest))
         = (if snd kv = VNone then None else Some (dump (fty f) (snd kv)))"
    using Cons.prems(1,2) by (rule lookup_dump)
  have "validate_fields cv b fs (dump_fields ((pre @ [f]) @ fs) ((prevs @ [kv]) @ rest)) = Inr rest"
    using Cons.prems by (intro Cons.IH) (auto simp: r)
  then have i: "validate_fields cv b fs (dump_fields (pre @ f # fs) (prevs @ kv # rest)) = Inr rest"
    by simp
  show ?case
  proof (cases f)
    case (Req n a t)
    with Cons.prems(3) vs have c: "conf t (snd kv)" by simp
    with Cons.prems(4) Req have "validate cv t (dump t (snd kv)) = Inr (snd kv)"
      by (simp add: rt_def)
    with c conf_not_None [OF c] l i k Req vs show ?thesis
      by (cases kv) (simp add: with_field_def)
  next
    case (Opt n a t)
    show ?thesis
    proof (cases "snd kv = VNone")
      case True
      with l i k Opt vs show ?thesis by (cases kv) (simp add: with_field_def)
    next
      case False
      with Cons.prems(3) vs Opt have c: "conf t (snd kv)" by simp
      with Cons.prems(4) Opt have "validate cv t (dump t (snd kv)) = Inr (snd kv)"
        "dump t (snd kv) \<noteq> JNull"
        by (simp_all add: rt_def)
      with False l i k Opt vs show ?thesis by (cases kv) (simp add: with_field_def)
    qed
  qed
qed

lemma validate_items_dump:
  "rt cv t \<Longrightarrow> conf_items t vs \<Longrightarrow>
   validate_items cv t (dump_items t vs) = Inr vs \<and> length (dump_items t vs) = length vs"
  by (induction vs) (auto simp: rt_def)

lemma tagged_conf:
  assumes "tags T \<noteq> []" "conf T v"
  shows "\<exists>s rest. v = VObj (class_of T) ((''type'', VStr s) # rest) \<and> s \<in> set (tags T)"
proof -
  from assms(1) obtain c b fs where
    T: "T = TModel c b (Req ''type'' ''type'' (TLiteral (tags T)) # fs)"
    by (rule tagged_cases)
  from assms(2) obtain vs where v: "v = VObj c vs"
    and f: "conf_fields (Req ''type'' ''type'' (TLiteral (tags T)) # fs) vs"
    by (subst (asm) T) (cases v; auto)
  from f obtain kv rest where vs: "vs = kv # rest" and k: "fst kv = ''type''"
    and l: "conf (TLiteral (tags T)) (snd kv)"
    by (cases vs) auto
  from l obtain s where "snd kv = VStr s" "s \<in> set (tags T)" by (cases "snd kv") auto
  with k have "kv = (''type'', VStr s)" by (cases kv) simp
  with v vs \<open>s \<in> set (tags T)\<close> show ?thesis by (subst T) simp
qed

lemma tagged_dump:
  assumes "tags T \<noteq> []" "conf T v"
  shows "\<exists>d s. dump T v = JObj d \<and> map_of d ''type'' = Some (JStr s) \<and> s \<in> set (tags T)"
proof -
  from assms(1) obtain c b fs where
    T: "T = TModel c b (Req ''type'' ''type'' (TLiteral (tags T)) # fs)"
    by (rule tagged_cases)
  from tagged_conf [OF assms] obtain s rest where
    v: "v = VObj (class_of T) ((''type'', VStr s) # rest)" and s: "s \<in> set (tags T)" by blast
  have "dump T v = JObj ((''type'', JStr s) # dump_fields fs rest)"
    by (subst T) (simp add: v)
  with s show ?thesis by simp
qed

lemma tagged_mismatch:
  assumes "tags T \<noteq> []" "tags T' \<noteq> []" "set (tags T) \<inter> set (tags T') = {}" "conf T' v"
  shows "validate cv T (dump T' v) = Inl ValidationError"
proof -
  from tagged_dump [OF assms(2,4)] obtain d s where
    "dump T' v = JObj d" "map_of d ''type'' = Some (JStr s)" "s \<in> set (tags T')" by blast
  with assms(3) tagged_member_rejects [OF assms(1), of d s cv] show ?thesis by auto
qed

lemma tagged_instance:
  assumes "tags T \<noteq> []"
  shows "is_instance T v \<longleftrightarrow> (\<exists>vs. v = VObj (class_of T) vs)"
proof -
  from assms obtain c b fs where
    T: "T = TModel c b (Req ''type'' ''type'' (TLiteral (tags T)) # fs)"
    by (rule tagged_cases)
  show ?thesis by (subst T, subst (2) T) (cases v; auto)
qed

lemma conf_union_member: "conf_union ts v \<Longrightarrow> \<exists>t\<in>set ts. conf t v"
  by (induction ts) auto

lemma wf_members_Cons:
  "wf_members (t # ts) \<Longrightarrow>
   tags t \<noteq> [] \<and> wf_members ts \<and> class_of t \<notin> class_of ` set ts
   \<and> (\<forall>t'\<in>set ts. tags t' \<noteq> [] \<and> set (tags t) \<inter> set (tags t') = {})"
  by (auto simp: wf_members_def list_all_iff)

lemma not_instance_of_other:
  assumes "wf_members (t # ts)" "conf_union ts v"
  shows "\<not> is_instance t v"
proof
  assume i: "is_instance t v"
  from wf_members_Cons [OF assms(1)] have t: "tags t \<noteq> []"
    and c: "class_of t \<notin> class_of ` set ts" and ts: "\<forall>t'\<in>set ts. tags t' \<noteq> []" by auto
  from conf_union_member [OF assms(2)] obtain t' where t': "t' \<in> set ts" "conf t' v" by blast
  with ts tagged_conf [of t' v] obtain vs where "v = VObj (class_of t') vs" by blast
  moreover from i tagged_instance [OF t] obtain vs' where "v = VObj (class_of t) vs'" by blast
  ultimately have "class_of t = class_of t'" by simp
  with c t'(1) show False by auto
qed

lemma dump_union_member:
  "wf_members ts \<Longrightarrow> conf_union ts v \<Longrightarrow> \<exists>t\<in>set ts. conf t v \<and> dump_union ts v = dump t v"
proof (induction ts)
  case (Cons t ts)
  from wf_members_Cons [OF Cons.prems(1)] have t: "tags t \<noteq> []" and w: "wf_members ts" by auto
  show ?case
  proof (cases "conf t v")
    case True
    with tagged_conf [OF t True] tagged_instance [OF t, of v] show ?thesis by auto
  next
    case False
    with Cons.prems(2) have u: "conf_union ts v" by simp
    from not_instance_of_other [OF Cons.prems(1) u] Cons.IH [OF w u] show ?thesis by auto
  qed
qed simp

lemma union_roundtrip:
  "wf_members ts \<Longrightarrow> \<forall>t\<in>set ts. rt cv t \<Longrightarrow> conf_union ts v
     \<Longrightarrow> validate_union cv ts (dump_union ts v) = Inr v \<and> dump_union ts v \<noteq> JNull"
proof (induction ts)
  case (Cons t ts)
  from wf_members_Cons [OF Cons.prems(1)] have t: "tags t \<noteq> []" and w: "wf_members ts"
    and dj: "\<forall>t'\<in>set ts. tags t' \<noteq> [] \<and> set (tags t) \<inter> set (tags t') = {}" by auto
  show ?case
  proof (cases "conf t v")
    case True
    with tagged_conf [OF t True] tagged_instance [OF t, of v] have "is_instance t v" by auto
    with True Cons.prems(2) show ?thesis by (simp add: rt_def)
  next
    case False
    with Cons.prems(3) have u: "conf_union ts v" by simp
    from not_instance_of_other [OF Cons.prems(1) u] have n: "\<not> is_instance t v" .
    from dump_union_member [OF w u] obtain t' where
      t': "t' \<in> set ts" "conf t' v" "dump_union ts v = dump t' v" by blast
    with dj have "validate cv t (dump_union ts v) = Inl ValidationError"
      using tagged_mismatch [OF t, of t' v cv] by auto
    with n Cons.IH [OF w _ u] Cons.prems(2) show ?thesis by simp
  qed
qed simp

lemma roundtrip_all:
  assumes "exact cv"
  shows "wf t \<Longrightarrow> rt cv t"
    "wf_fields fs \<Longrightarrow> \<forall>f\<in>set fs. rt cv (fty f)"
    "wf_union ts \<Longrightarrow> \<forall>t\<in>set ts. rt cv t"
proof (induction t and fs and ts rule: wf_wf_fields_wf_union.induct)
  case 1
  show ?case using assms by (auto simp: rt_def exact_def split: val.splits)
next
  case 2
  show ?case using assms by (auto simp: rt_def exact_def split: val.splits)
next
  case (3 lo hi)
  show ?case using assms by (auto simp: rt_def exact_def split: val.splits)
next
  case (4 lo hi)
  show ?case using assms by (auto simp: rt_def exact_def split: val.splits)
next
  case (5 ls)
  show ?case by (auto simp: rt_def split: val.splits)
next
  case 6
  show ?case by (auto simp: rt_def split: val.splits)
next
  case (7 t mn mx)
  then have r: "rt cv t" by simp
  show ?case unfolding rt_def
  proof (intro allI impI)
    fix v assume "conf (TList t mn mx) v"
    then obtain vs where v: "v = VList vs" and b: "ge_ok mn (length vs)" "le_ok mx (length vs)"
      and c: "conf_items t vs" by (cases v) auto
    from validate_items_dump [OF r c] v b
    show "validate cv (TList t mn mx) (dump (TList t mn mx) v) = Inr v
          \<and> dump (TList t mn mx) v \<noteq> JNull" by simp
  qed
next
  case (8 c by_name fs)
  then have n: "wf_names fs" and r: "\<forall>f\<in>set fs. rt cv (fty f)" by simp_all
  show ?case unfolding rt_def
  proof (intro allI impI)
    fix v assume "conf (TModel c by_name fs) v"
    then obtain vs where v: "v = VObj c vs" and f: "conf_fields fs vs" by (cases v) auto
    from validate_fields_dump [of "[]" fs "[]" vs cv by_name] n f r
    have "validate_fields cv by_name fs (dump_fields fs vs) = Inr vs" by simp
    with v show "validate cv (TModel c by_name fs) (dump (TModel c by_name fs) v) = Inr v
          \<and> dump (TModel c by_name fs) v \<noteq> JNull" by simp
  qed
next
  case (9 ts)
  then have m: "wf_members ts" and r: "\<forall>t\<in>set ts. rt cv t" by simp_all
  show ?case unfolding rt_def
    using union_roundtrip [OF m r] by simp
qed simp_all

lemma wf_EmailTemplate: "wf EmailTemplate_ty"
  by code_simp

section \<open>Writing a document and reading it back\<close>



end
